theory Spec2Isabelle
  imports Complex_Main "HOL-Library.Word" "HOL-Library.AList" "HOL-Library.Sublist"
begin

unbundle bit_operations_syntax

section \<open>Download monitor with advanced duplicate detection (newdetect.py)\<close>

text \<open>
  A shallow embedding of the duplicate-detection core of \<^verbatim>\<open>newdetect.py\<close>: the admission
  filter, the stability wait, the fingerprint database and its per-modality scans, and the
  decision procedure of the event handler.

  Conventions of the embedding.
  \<^item> A character is a code point below 256 (Latin-1), and \<^verbatim>\<open>str.lower\<close>,
    \<^verbatim>\<open>str.strip\<close> and \<^verbatim>\<open>str.split\<close> are those of Python on these code points.
  \<^item> Everything the program reads from outside itself (the file system, the regular
    expression engine, the image, audio, video, document and fuzzy-hash libraries, MD5,
    difflib) is a field of the record \<open>env\<close>; a library call that raises inside a
    \<^verbatim>\<open>try\<close> of the source returns \<open>None\<close> there.
  \<^item> The file system is fixed during one pass, except for the sizes sampled by the
    stability wait, which are a separate sequence of observations.
  \<^item> The single-precision arithmetic of numpy in the audio scan is part of the
    environment: the model fixes which operations are applied to which values, not how they
    round, overflow or produce values that are not numbers. The scores of the other scans
    (one minus a multiple of 1/64, a ratio of difflib, a hundredth of an integer) are real
    numbers.
  \<^item> SQLite statements are assumed to succeed, as are the comparisons of stored
    fingerprints (hash difference, ssdeep, difflib), whose arguments the same libraries
    produced; a table is the list of its rows in
    row-id order, which is the order an unordered \<^verbatim>\<open>SELECT\<close> scans them in.
  \<^item> Dictionaries are association lists in insertion order.
\<close>

subsection \<open>Strings\<close>

text \<open>
  The cased code points below 256 with a lower-case partner: the letters A to Z, and
  \<^verbatim>\<open>0xC0\<close> to \<^verbatim>\<open>0xDE\<close> without the multiplication sign \<^verbatim>\<open>0xD7\<close>.
\<close>

definition upper_chars :: string where
  "upper_chars =
     ''ABCDEFGHIJKLMNOPQRSTUVWXYZ'' @
        [CHR 0xC0, CHR 0xC1, CHR 0xC2, CHR 0xC3, CHR 0xC4, CHR 0xC5, CHR 0xC6, CHR 0xC7,
         CHR 0xC8, CHR 0xC9, CHR 0xCA, CHR 0xCB, CHR 0xCC, CHR 0xCD, CHR 0xCE, CHR 0xCF,
         CHR 0xD0, CHR 0xD1, CHR 0xD2, CHR 0xD3, CHR 0xD4, CHR 0xD5, CHR 0xD6, CHR 0xD8,
         CHR 0xD9, CHR 0xDA, CHR 0xDB, CHR 0xDC, CHR 0xDD, CHR 0xDE]"

definition lower_chars :: string where
  "lower_chars =
     ''abcdefghijklmnopqrstuvwxyz'' @
        [CHR 0xE0, CHR 0xE1, CHR 0xE2, CHR 0xE3, CHR 0xE4, CHR 0xE5, CHR 0xE6, CHR 0xE7,
         CHR 0xE8, CHR 0xE9, CHR 0xEA, CHR 0xEB, CHR 0xEC, CHR 0xED, CHR 0xEE, CHR 0xEF,
         CHR 0xF0, CHR 0xF1, CHR 0xF2, CHR 0xF3, CHR 0xF4, CHR 0xF5, CHR 0xF6, CHR 0xF8,
         CHR 0xF9, CHR 0xFA, CHR 0xFB, CHR 0xFC, CHR 0xFD, CHR 0xFE]"

definition lower_char :: "char \<Rightarrow> char" where
  "lower_char c =
     (case map_of (zip upper_chars lower_chars) c of
        Some d \<Rightarrow> d
      | None \<Rightarrow> c)"

definition lower :: "string \<Rightarrow> string" where
  "lower s = map lower_char s"

definition is_space :: "char \<Rightarrow> bool" where
  "is_space c \<longleftrightarrow>
     c \<in> set [CHR 0x09, CHR 0x0A, CHR 0x0B, CHR 0x0C, CHR 0x0D,
              CHR 0x1C, CHR 0x1D, CHR 0x1E, CHR 0x1F, CHR 0x20, CHR 0x85, CHR 0xA0]"

definition strip :: "string \<Rightarrow> string" where
  "strip s = rev (dropWhile is_space (rev (dropWhile is_space s)))"

text \<open>\<^verbatim>\<open>str.rfind\<close> of a single character: the last index, or \<open>-1\<close>.\<close>

fun rfind :: "char \<Rightarrow> string \<Rightarrow> int" where
  "rfind c [] = - 1"
| "rfind c (x # xs) =
     (let r = rfind c xs in if 0 \<le> r then r + 1 else if x = c then 0 else - 1)"

text \<open>
  \<^verbatim>\<open>os.path.splitext\<close> (\<^verbatim>\<open>genericpath._splitext\<close> with the separators of ntpath, the
  platform of the configured download directory): the extension starts at the last dot,
  provided that dot comes after the last separator and is not one of the leading dots of
  the last component.
\<close>

definition splitext :: "string \<Rightarrow> string \<times> string" where
  "splitext p =
     (let sepIndex = max (rfind (CHR 0x5C) p) (rfind (CHR ''/'') p);
          dotIndex = rfind (CHR ''.'') p
      in if sepIndex < dotIndex \<and>
            list_ex (\<lambda>i. p ! i \<noteq> CHR ''.'') [nat (sepIndex + 1)..<nat dotIndex]
         then (take (nat dotIndex) p, drop (nat dotIndex) p)
         else (p, []))"

text \<open>\<^verbatim>\<open>len(content.split())\<close>: the number of maximal runs of non-space characters.\<close>

fun count_words :: "bool \<Rightarrow> string \<Rightarrow> nat" where
  "count_words in_word [] = 0"
| "count_words in_word (c # cs) =
     (if is_space c then count_words False cs
      else (if in_word then 0 else 1) + count_words True cs)"

definition word_count :: "string \<Rightarrow> nat" where
  "word_count s = count_words False s"

subsection \<open>Regular expressions of the configuration\<close>

text \<open>
  The patterns the program hands to \<^verbatim>\<open>re.sub\<close> and \<^verbatim>\<open>re.search\<close> are sequences of the
  atoms \<^verbatim>\<open>^\<close>, \<^verbatim>\<open>$\<close>, a literal character, \<^verbatim>\<open>\s*\<close>, \<^verbatim>\<open>\s+\<close> and \<^verbatim>\<open>\d+\<close>.
\<close>

datatype rx_atom = Bol | Eol | Lit char | WsStar | WsPlus | Digits

type_synonym pattern = "rx_atom list"

definition lits :: "string \<Rightarrow> pattern" where
  "lits s = map Lit s"

definition duplicate_patterns :: "pattern list" where
  "duplicate_patterns =
     [ [WsStar, Lit (CHR ''(''), Digits, Lit (CHR '')'')],
       [WsStar, Lit (CHR ''-''), WsStar] @ lits ''copy'',
       [WsStar] @ lits ''_copy'',
       [WsStar, Lit (CHR ''-''), WsStar, Lit (CHR ''v''), Digits, Lit (CHR '')'')],
       [WsStar, Lit (CHR ''_''), Lit (CHR ''v''), Digits, Lit (CHR '')'')],
       [WsStar, Lit (CHR ''-''), WsStar, Digits],
       [WsStar, Lit (CHR ''_''), Digits],
       [WsStar, Lit (CHR ''-''), WsStar] @ lits ''duplicate'',
       [WsStar] @ lits ''_duplicate'',
       [WsPlus] @ lits ''copy'' ]"

definition EXCLUDED_PATTERNS :: "pattern list" where
  "EXCLUDED_PATTERNS =
     [ [Bol] @ lits ''desktop.ini'' @ [Eol],
       [Bol] @ lits ''folder.jpg'' @ [Eol],
       [Bol] @ lits ''thumbs.db'' @ [Eol] ]"

definition IGNORED_NAME_PATTERNS :: "pattern list" where
  "IGNORED_NAME_PATTERNS =
     [ [Bol, Lit (CHR ''~''), Lit (CHR ''$'')],
       [Bol, Lit (CHR ''.'')],
       lits ''Thumbs.db'' @ [Eol] ]"

subsection \<open>Configuration\<close>

definition DOWNLOAD_DIR :: string where
  "DOWNLOAD_DIR = ''C:'' @ [CHR 0x5C] @ ''Users'' @ [CHR 0x5C] @ ''Manoj'' @ [CHR 0x5C] @ ''Downloads''"

definition THRESHOLD_image_hash :: nat where
  "THRESHOLD_image_hash = 10"

definition THRESHOLD_audio_similarity :: real where
  "THRESHOLD_audio_similarity = 85 / 100"

definition THRESHOLD_text_similarity :: real where
  "THRESHOLD_text_similarity = 85 / 100"

text \<open>The table also holds a video threshold; no function reads it.\<close>

definition THRESHOLD_video_similarity :: real where
  "THRESHOLD_video_similarity = 8 / 10"

definition THRESHOLD_fuzzy_similarity :: int where
  "THRESHOLD_fuzzy_similarity = 80"

definition IMAGE_EXTENSIONS :: "string list" where
  "IMAGE_EXTENSIONS =
     [''.jpg'', ''.jpeg'', ''.png'', ''.gif'', ''.bmp'', ''.tiff'', ''.webp'', ''.ico'', ''.svg'']"

definition AUDIO_EXTENSIONS :: "string list" where
  "AUDIO_EXTENSIONS = [''.mp3'', ''.wav'', ''.flac'', ''.aac'', ''.ogg'', ''.m4a'', ''.wma'']"

definition VIDEO_EXTENSIONS :: "string list" where
  "VIDEO_EXTENSIONS =
     [''.mp4'', ''.avi'', ''.mov'', ''.wmv'', ''.flv'', ''.mkv'', ''.webm'', ''.m4v'']"

definition DOCUMENT_EXTENSIONS :: "string list" where
  "DOCUMENT_EXTENSIONS = [''.pdf'', ''.doc'', ''.docx'', ''.txt'', ''.rtf'', ''.odt'']"

definition SUPPORTED_FILE_TYPES :: "string list" where
  "SUPPORTED_FILE_TYPES =
     IMAGE_EXTENSIONS @ AUDIO_EXTENSIONS @ VIDEO_EXTENSIONS @ DOCUMENT_EXTENSIONS @
     [''.xls'', ''.xlsx'', ''.ppt'', ''.pptx'', ''.zip'', ''.rar'', ''.7z'', ''.tar'', ''.gz'']"

definition MIN_FILE_SIZE :: nat where
  "MIN_FILE_SIZE = 1024"

definition MAX_FILE_SIZE :: nat where
  "MAX_FILE_SIZE = 500 * 1024 * 1024"

definition IGNORED_EXTENSIONS :: "string list" where
  "IGNORED_EXTENSIONS =
     [''.tmp'', ''.temp'', ''.crdownload'', ''.part'', ''.download'', ''.partial'']"

subsection \<open>The environment\<close>

record stat_result =
  st_isreg :: bool
  st_size :: nat
  st_mtime :: real

record image_fp =
  perceptual_hash :: "64 word"
  average_hash :: "64 word"
  difference_hash :: "64 word"
  wavelet_hash :: "64 word"

text \<open>
  A single-precision value of numpy: a finite number, an infinity, or not a number. The
  two feature arrays of an audio fingerprint are stored as bytes and read back with
  \<^verbatim>\<open>np.frombuffer(..., dtype=np.float32)\<close>; the record holds the values read back.
\<close>

datatype np_float32 = Finite real | PosInf | NegInf | NaN

record audio_fp =
  spectral_centroid :: "np_float32 list"
  mfcc_features :: "np_float32 list"
  tempo :: real
  duration :: real

record video_probe =
  frame_phash :: "64 word"
  fps :: real
  frame_count :: real
  frame_width :: int
  frame_height :: int

record video_fp =
  thumbnail_hash :: "64 word"
  video_duration :: real
  resolution :: "int \<times> int"

record doc_fp =
  content_hash :: string
  text_content :: string
  doc_word_count :: nat

text \<open>
  \<open>os_stat\<close> is \<^verbatim>\<open>os.stat\<close>, \<open>None\<close> when it raises; \<^verbatim>\<open>os.path.exists\<close>,
  \<^verbatim>\<open>isfile\<close>, \<^verbatim>\<open>getsize\<close> and \<^verbatim>\<open>getmtime\<close> are all read off it. A perceptual hash
  is the 64-bit value of imagehash's 8 by 8 bit matrix, whose 16 hexadecimal digits the
  database stores. \<open>re_sub p s\<close> is \<^verbatim>\<open>re.sub(p, '', s)\<close>, and the flag of \<open>re_search\<close>
  is \<^verbatim>\<open>re.IGNORECASE\<close>. \<open>cv2_read\<close> is the first frame of the capture with its
  properties, \<open>None\<close> when no frame is read. \<open>np_dot\<close> and \<open>np_linalg_norm\<close> are
  \<^verbatim>\<open>np.dot\<close> and \<^verbatim>\<open>np.linalg.norm\<close> on single-precision arrays, and
  \<open>float32_multiply\<close>, \<open>float32_divide\<close> and \<open>float32_add\<close> the operators \<^verbatim>\<open>*\<close>,
  \<^verbatim>\<open>/\<close> and \<^verbatim>\<open>+\<close> on single-precision scalars, which warn and do not raise.
\<close>

record env =
  os_stat :: "string \<Rightarrow> stat_result option"
  os_path_basename :: "string \<Rightarrow> string"
  os_path_join :: "string \<Rightarrow> string \<Rightarrow> string"
  re_search :: "pattern \<Rightarrow> bool \<Rightarrow> string \<Rightarrow> bool"
  re_sub :: "pattern \<Rightarrow> string \<Rightarrow> string"
  PIL_AVAILABLE :: bool
  LIBROSA_AVAILABLE :: bool
  CV2_AVAILABLE :: bool
  SSDEEP_AVAILABLE :: bool
  PYMUPDF_AVAILABLE :: bool
  DOCX_AVAILABLE :: bool
  imagehash_of_file :: "string \<Rightarrow> image_fp option"
  librosa_features :: "string \<Rightarrow> audio_fp option"
  fitz_text :: "string \<Rightarrow> string option"
  docx_text :: "string \<Rightarrow> string option"
  read_text :: "string \<Rightarrow> string option"
  cv2_read :: "string \<Rightarrow> video_probe option"
  ssdeep_hash_from_file :: "string \<Rightarrow> string option"
  ssdeep_compare :: "string \<Rightarrow> string \<Rightarrow> int"
  md5_hexdigest :: "string \<Rightarrow> string"
  md5_of_file :: "string \<Rightarrow> string option"
  SequenceMatcher_ratio :: "string \<Rightarrow> string \<Rightarrow> real"
  np_dot :: "np_float32 list \<Rightarrow> np_float32 list \<Rightarrow> np_float32"
  np_linalg_norm :: "np_float32 list \<Rightarrow> np_float32"
  float32_multiply :: "np_float32 \<Rightarrow> np_float32 \<Rightarrow> np_float32"
  float32_divide :: "np_float32 \<Rightarrow> np_float32 \<Rightarrow> np_float32"
  float32_add :: "np_float32 \<Rightarrow> np_float32 \<Rightarrow> np_float32"

definition path_exists :: "env \<Rightarrow> string \<Rightarrow> bool" where
  "path_exists e p \<longleftrightarrow> os_stat e p \<noteq> None"

definition path_isfile :: "env \<Rightarrow> string \<Rightarrow> bool" where
  "path_isfile e p \<longleftrightarrow> (case os_stat e p of None \<Rightarrow> False | Some s \<Rightarrow> st_isreg s)"

definition path_getsize :: "env \<Rightarrow> string \<Rightarrow> nat option" where
  "path_getsize e p = map_option st_size (os_stat e p)"

definition path_getmtime :: "env \<Rightarrow> string \<Rightarrow> real option" where
  "path_getmtime e p = map_option st_mtime (os_stat e p)"

definition file_ext_of :: "string \<Rightarrow> string" where
  "file_ext_of p = lower (snd (splitext p))"

subsection \<open>Filename similarity and the admission filter\<close>

definition clean_name :: "env \<Rightarrow> string \<Rightarrow> string" where
  "clean_name e base = foldl (\<lambda>clean p. strip (re_sub e p clean)) base duplicate_patterns"

definition is_similar_filename :: "env \<Rightarrow> string \<Rightarrow> string \<Rightarrow> bool" where
  "is_similar_filename e file1 file2 =
     (let (name1, ext1) = splitext file1;
          (name2, ext2) = splitext file2
      in if lower ext1 \<noteq> lower ext2 then False
         else let base1 = strip (lower name1);
                  base2 = strip (lower name2)
              in if base1 = base2 then True
                 else let clean1 = clean_name e base1;
                          clean2 = clean_name e base2
                      in if clean1 = clean2 \<and> 0 < length clean1 then True else False)"

definition should_process_file :: "env \<Rightarrow> string \<Rightarrow> bool" where
  "should_process_file e file_path =
     (if \<not> path_exists e file_path \<or> \<not> path_isfile e file_path then False
      else let filename = os_path_basename e file_path
           in if list_ex (\<lambda>p. re_search e p True filename) EXCLUDED_PATTERNS then False
              else let file_ext = file_ext_of file_path
                   in if file_ext \<in> set IGNORED_EXTENSIONS then False
                      else if list_ex (\<lambda>p. re_search e p False filename) IGNORED_NAME_PATTERNS
                           then False
                      else if file_ext \<notin> set SUPPORTED_FILE_TYPES then False
                      else (case path_getsize e file_path of
                              None \<Rightarrow> False
                            | Some file_size \<Rightarrow>
                                if file_size < MIN_FILE_SIZE then False
                                else if MAX_FILE_SIZE < file_size then False
                                else True))"

subsection \<open>The stability wait\<close>

text \<open>
  One round of the loop of \<^verbatim>\<open>wait_for_stable_file\<close> observes either that the path does
  not exist (\<open>Gone\<close>), or its size, or that reading the size raised (\<open>Failed\<close>: the round
  sleeps and counts, and leaves the stable count and the last size alone). \<open>obs i\<close> is what
  round \<open>i\<close> observes. The loop returns its verdict together with \<open>wait_count\<close>, the
  number of rounds completed when it returns.
\<close>

datatype sample = Gone | Size nat | Failed

function wait_loop :: "(nat \<Rightarrow> sample) \<Rightarrow> nat \<Rightarrow> nat \<Rightarrow> nat \<Rightarrow> int \<Rightarrow> bool \<times> nat" where
  "wait_loop obs max_wait stable_count wait_count last_size =
     (if stable_count < 3 \<and> wait_count < max_wait then
        (case obs wait_count of
           Gone \<Rightarrow> (False, wait_count)
         | Failed \<Rightarrow> wait_loop obs max_wait stable_count (Suc wait_count) last_size
         | Size current_size \<Rightarrow>
             if int current_size = last_size \<and> 0 < current_size
             then wait_loop obs max_wait (Suc stable_count) (Suc wait_count) last_size
             else wait_loop obs max_wait 0 (Suc wait_count) (int current_size))
      else (3 \<le> stable_count, wait_count))"
  by pat_completeness auto
termination
  by (relation "measure (\<lambda>(obs, max_wait, stable_count, wait_count, last_size).
        max_wait - wait_count)") auto

declare wait_loop.simps [simp del]

definition wait_for_stable_file :: "(nat \<Rightarrow> sample) \<Rightarrow> nat \<Rightarrow> bool" where
  "wait_for_stable_file obs max_wait = fst (wait_loop obs max_wait 0 0 (- 1))"

text \<open>
  The sizes read successfully in a run of rounds, and the condition that the last four of
  them are one positive size: the last three each left the size unchanged.
\<close>

fun observed_sizes :: "sample list \<Rightarrow> int list" where
  "observed_sizes [] = []"
| "observed_sizes (Size n # xs) = int n # observed_sizes xs"
| "observed_sizes (_ # xs) = observed_sizes xs"

definition stable_tail :: "int list \<Rightarrow> bool" where
  "stable_tail h \<longleftrightarrow> (\<exists>s pre. 0 < s \<and> h = pre @ [s, s, s, s])"

text \<open>The loop over the list of the remaining observations, for the proofs.\<close>

fun wait_list :: "nat \<Rightarrow> int \<Rightarrow> nat \<Rightarrow> sample list \<Rightarrow> bool \<times> nat" where
  "wait_list sc ls wc [] = (3 \<le> sc, wc)"
| "wait_list sc ls wc (x # xs) =
     (if sc < 3 then
        (case x of
           Gone \<Rightarrow> (False, wc)
         | Failed \<Rightarrow> wait_list sc ls (Suc wc) xs
         | Size c \<Rightarrow> if int c = ls \<and> 0 < c then wait_list (Suc sc) ls (Suc wc) xs
                     else wait_list 0 (int c) (Suc wc) xs)
      else (True, wc))"

subsection \<open>Fingerprint extraction\<close>

definition calculate_hash :: "env \<Rightarrow> string \<Rightarrow> string option" where
  "calculate_hash e file_path = md5_of_file e file_path"

definition calculate_image_hashes :: "env \<Rightarrow> string \<Rightarrow> image_fp option" where
  "calculate_image_hashes e file_path =
     (if \<not> PIL_AVAILABLE e then None else imagehash_of_file e file_path)"

definition calculate_audio_fingerprint :: "env \<Rightarrow> string \<Rightarrow> audio_fp option" where
  "calculate_audio_fingerprint e file_path =
     (if \<not> LIBROSA_AVAILABLE e then None else librosa_features e file_path)"

definition extract_document_content :: "env \<Rightarrow> string \<Rightarrow> string option" where
  "extract_document_content e file_path =
     (let file_ext = file_ext_of file_path
      in if file_ext = ''.pdf'' \<and> PYMUPDF_AVAILABLE e then map_option strip (fitz_text e file_path)
         else if file_ext = ''.docx'' \<and> DOCX_AVAILABLE e
              then map_option strip (docx_text e file_path)
         else if file_ext = ''.txt'' then map_option strip (read_text e file_path)
         else None)"

text \<open>
  Without PIL the names \<^verbatim>\<open>Image\<close> and \<^verbatim>\<open>imagehash\<close> are unbound: hashing the frame
  raises, and the \<^verbatim>\<open>except\<close> of the function returns \<^verbatim>\<open>None\<close>.
\<close>

definition calculate_video_thumbnail_hash :: "env \<Rightarrow> string \<Rightarrow> video_fp option" where
  "calculate_video_thumbnail_hash e file_path =
     (if \<not> CV2_AVAILABLE e then None
      else case cv2_read e file_path of
             None \<Rightarrow> None
           | Some pr \<Rightarrow>
               if \<not> PIL_AVAILABLE e then None
               else Some \<lparr> thumbnail_hash = frame_phash pr,
                           video_duration = (if 0 < fps pr then frame_count pr / fps pr else 0),
                           resolution = (frame_width pr, frame_height pr) \<rparr>)"

definition calculate_fuzzy_hash :: "env \<Rightarrow> string \<Rightarrow> string option" where
  "calculate_fuzzy_hash e file_path =
     (if \<not> SSDEEP_AVAILABLE e then None else ssdeep_hash_from_file e file_path)"

subsection \<open>The fingerprint database\<close>

text \<open>
  One table per modality, keyed by path; a row carries the fingerprint, the file size and
  the modification time. \<open>cursor\<close> tells whether the connection was opened.
  \<^verbatim>\<open>INSERT OR REPLACE\<close> deletes the row of the key, if any, and appends the new row.
\<close>

type_synonym 'fp table = "(string \<times> 'fp \<times> nat \<times> real) list"

record fingerprint_db =
  cursor :: bool
  image_hashes :: "image_fp table"
  audio_fingerprints :: "audio_fp table"
  document_content :: "doc_fp table"
  video_thumbnails :: "video_fp table"
  fuzzy_hashes :: "string table"

definition insert_or_replace :: "string \<Rightarrow> 'v \<Rightarrow> (string \<times> 'v) list \<Rightarrow> (string \<times> 'v) list" where
  "insert_or_replace k v t = filter (\<lambda>r. fst r \<noteq> k) t @ [(k, v)]"

text \<open>
  \<^verbatim>\<open>store_fingerprints\<close> reads the size and the modification time before its
  \<^verbatim>\<open>try\<close>: when the file is gone the error escapes to the caller (\<open>None\<close>), with
  nothing written. Its body is the \<^verbatim>\<open>if\<close>/\<^verbatim>\<open>elif\<close> chain over the modality of the
  extension, followed by the fuzzy hash of every supported type.
\<close>

definition store_modality ::
  "env \<Rightarrow> fingerprint_db \<Rightarrow> string \<Rightarrow> string \<Rightarrow> nat \<Rightarrow> real \<Rightarrow> fingerprint_db" where
  "store_modality e d file_path file_ext file_size mod_time =
     (if file_ext \<in> set IMAGE_EXTENSIONS then
        (case calculate_image_hashes e file_path of
           Some hashes \<Rightarrow>
             d\<lparr>image_hashes :=
                 insert_or_replace file_path (hashes, file_size, mod_time) (image_hashes d)\<rparr>
         | None \<Rightarrow> d)
      else if file_ext \<in> set AUDIO_EXTENSIONS then
        (case calculate_audio_fingerprint e file_path of
           Some fingerprint \<Rightarrow>
             d\<lparr>audio_fingerprints :=
                 insert_or_replace file_path (fingerprint, file_size, mod_time)
                   (audio_fingerprints d)\<rparr>
         | None \<Rightarrow> d)
      else if file_ext \<in> set DOCUMENT_EXTENSIONS then
        (case extract_document_content e file_path of
           Some content \<Rightarrow>
             if content \<noteq> [] then
               d\<lparr>document_content :=
                   insert_or_replace file_path
                     (\<lparr> content_hash = md5_hexdigest e content,
                         text_content = content,
                         doc_word_count = word_count content \<rparr>, file_size, mod_time)
                     (document_content d)\<rparr>
             else d
         | None \<Rightarrow> d)
      else if file_ext \<in> set VIDEO_EXTENSIONS then
        (case calculate_video_thumbnail_hash e file_path of
           Some video_data \<Rightarrow>
             d\<lparr>video_thumbnails :=
                 insert_or_replace file_path (video_data, file_size, mod_time)
                   (video_thumbnails d)\<rparr>
         | None \<Rightarrow> d)
      else d)"

definition store_fuzzy ::
  "env \<Rightarrow> fingerprint_db \<Rightarrow> string \<Rightarrow> string \<Rightarrow> nat \<Rightarrow> real \<Rightarrow> fingerprint_db" where
  "store_fuzzy e d file_path file_ext file_size mod_time =
     (if file_ext \<in> set SUPPORTED_FILE_TYPES then
        (case calculate_fuzzy_hash e file_path of
           Some fuzzy_hash \<Rightarrow>
             if fuzzy_hash \<noteq> [] then
               d\<lparr>fuzzy_hashes :=
                   insert_or_replace file_path (fuzzy_hash, file_size, mod_time)
                     (fuzzy_hashes d)\<rparr>
             else d
         | None \<Rightarrow> d)
      else d)"

definition store_fingerprints :: "env \<Rightarrow> fingerprint_db \<Rightarrow> string \<Rightarrow> fingerprint_db option" where
  "store_fingerprints e d file_path =
     (if \<not> cursor d then Some d
      else case os_stat e file_path of
        None \<Rightarrow> None
      | Some st \<Rightarrow>
          let file_ext = file_ext_of file_path;
              file_size = st_size st;
              mod_time = st_mtime st;
              d1 = store_modality e d file_path file_ext file_size mod_time
          in Some (store_fuzzy e d1 file_path file_ext file_size mod_time))"

subsection \<open>Similarity scans\<close>

text \<open>
  The difference of two image hashes is the number of bit positions where they differ.
\<close>

definition hamming :: "64 word \<Rightarrow> 64 word \<Rightarrow> nat" where
  "hamming a b = length (filter (bit (a XOR b)) [0..<64])"

text \<open>\<^verbatim>\<open>sorted(similar_files, key=lambda x: x[1], reverse=True)\<close>: descending and stable.\<close>

definition sorted_by_score :: "(string \<times> real) list \<Rightarrow> (string \<times> real) list" where
  "sorted_by_score xs = sort_key (\<lambda>x. - snd x) xs"

text \<open>The rows a scan selects (\<^verbatim>\<open>WHERE file_path != ?\<close>).\<close>

definition select_others :: "string \<Rightarrow> 'fp table \<Rightarrow> 'fp table" where
  "select_others file_path t = filter (\<lambda>r. fst r \<noteq> file_path) t"

definition find_similar_images :: "env \<Rightarrow> fingerprint_db \<Rightarrow> string \<Rightarrow> (string \<times> real) list" where
  "find_similar_images e d file_path =
     (if \<not> cursor d \<or> \<not> PIL_AVAILABLE e then []
      else case calculate_image_hashes e file_path of
        None \<Rightarrow> []
      | Some hashes \<Rightarrow>
          sorted_by_score (concat (map
            (\<lambda>(stored_path, stored, _).
               if path_exists e stored_path then
                 (let difference = hamming (perceptual_hash hashes) (perceptual_hash stored)
                  in if difference \<le> THRESHOLD_image_hash
                     then [(stored_path, 1 - real difference / 64)] else [])
               else [])
            (select_others file_path (image_hashes d)))))"

text \<open>
  The comparison \<^verbatim>\<open>similarity >= 0.85\<close> of a single-precision value with the
  threshold: no single-precision number lies between 0.85 and either of its roundings, so
  that a finite value compares as the real number it is; positive infinity compares true,
  and negative infinity and a value that is not a number compare false.
\<close>

definition float_ge :: "np_float32 \<Rightarrow> real \<Rightarrow> bool" where
  "float_ge x t \<longleftrightarrow>
     (case x of Finite r \<Rightarrow> t \<le> r | PosInf \<Rightarrow> True | NegInf \<Rightarrow> False | NaN \<Rightarrow> False)"

text \<open>
  \<^verbatim>\<open>float(similarity)\<close>, the score of a match. The scores of the program are only
  compared with each other and with thresholds: positive infinity is represented by
  \<open>2 ^ 128\<close>, which is above every finite single-precision number, and negative infinity
  by its opposite. A value that is not a number is never converted, because it compares
  false with the threshold.
\<close>

definition float_of :: "np_float32 \<Rightarrow> real" where
  "float_of x = (case x of Finite r \<Rightarrow> r | PosInf \<Rightarrow> 2 ^ 128 | NegInf \<Rightarrow> - (2 ^ 128) | NaN \<Rightarrow> 0)"

text \<open>
  The quotient \<^verbatim>\<open>np.dot(a, b) / (np.linalg.norm(a) * np.linalg.norm(b))\<close>, which the
  source writes out twice, and the similarity of two fingerprints: \<open>None\<close> when the
  comparison is skipped because the lengths differ.
\<close>

definition cosine :: "env \<Rightarrow> np_float32 list \<Rightarrow> np_float32 list \<Rightarrow> np_float32" where
  "cosine e xs ys =
     float32_divide e (np_dot e xs ys)
       (float32_multiply e (np_linalg_norm e xs) (np_linalg_norm e ys))"

definition audio_similarity :: "env \<Rightarrow> audio_fp \<Rightarrow> audio_fp \<Rightarrow> np_float32 option" where
  "audio_similarity e current stored =
     (if length (spectral_centroid current) = length (spectral_centroid stored) \<and>
         length (mfcc_features current) = length (mfcc_features stored)
      then (let centroid_sim = cosine e (spectral_centroid current) (spectral_centroid stored);
                mfcc_sim = cosine e (mfcc_features current) (mfcc_features stored)
            in Some (float32_divide e (float32_add e centroid_sim mfcc_sim) (Finite 2)))
      else None)"

definition find_similar_audio :: "env \<Rightarrow> fingerprint_db \<Rightarrow> string \<Rightarrow> (string \<times> real) list" where
  "find_similar_audio e d file_path =
     (if \<not> cursor d \<or> \<not> LIBROSA_AVAILABLE e then []
      else case calculate_audio_fingerprint e file_path of
        None \<Rightarrow> []
      | Some fingerprint \<Rightarrow>
          sorted_by_score (concat (map
            (\<lambda>(stored_path, stored, _).
               if path_exists e stored_path then
                 (case audio_similarity e fingerprint stored of
                    Some similarity \<Rightarrow>
                      if float_ge similarity THRESHOLD_audio_similarity
                      then [(stored_path, float_of similarity)] else []
                  | None \<Rightarrow> [])
               else [])
            (select_others file_path (audio_fingerprints d)))))"

definition find_similar_documents :: "env \<Rightarrow> fingerprint_db \<Rightarrow> string \<Rightarrow> (string \<times> real) list" where
  "find_similar_documents e d file_path =
     (if \<not> cursor d then []
      else case extract_document_content e file_path of
        None \<Rightarrow> []
      | Some content \<Rightarrow>
          if content = [] \<or> length (strip content) < 100 then []
          else
            sorted_by_score (concat (map
              (\<lambda>(stored_path, stored, _).
                 if path_exists e stored_path \<and> text_content stored \<noteq> [] then
                   (let similarity = SequenceMatcher_ratio e content (text_content stored)
                    in if THRESHOLD_text_similarity \<le> similarity
                       then [(stored_path, similarity)] else [])
                 else [])
              (select_others file_path (document_content d)))))"

definition find_similar_videos :: "env \<Rightarrow> fingerprint_db \<Rightarrow> string \<Rightarrow> (string \<times> real) list" where
  "find_similar_videos e d file_path =
     (if \<not> cursor d \<or> \<not> CV2_AVAILABLE e then []
      else case calculate_video_thumbnail_hash e file_path of
        None \<Rightarrow> []
      | Some video_data \<Rightarrow>
          sorted_by_score (concat (map
            (\<lambda>(stored_path, stored, _).
               if path_exists e stored_path then
                 (let difference = hamming (thumbnail_hash video_data) (thumbnail_hash stored)
                  in if difference \<le> THRESHOLD_image_hash
                     then [(stored_path, 1 - real difference / 64)] else [])
               else [])
            (select_others file_path (video_thumbnails d)))))"

definition find_fuzzy_similar :: "env \<Rightarrow> fingerprint_db \<Rightarrow> string \<Rightarrow> (string \<times> real) list" where
  "find_fuzzy_similar e d file_path =
     (if \<not> cursor d \<or> \<not> SSDEEP_AVAILABLE e then []
      else case calculate_fuzzy_hash e file_path of
        None \<Rightarrow> []
      | Some fuzzy_hash \<Rightarrow>
          if fuzzy_hash = [] then []
          else
            sorted_by_score (concat (map
              (\<lambda>(stored_path, stored_hash, _).
                 if path_exists e stored_path then
                   (let similarity = ssdeep_compare e fuzzy_hash stored_hash
                    in if THRESHOLD_fuzzy_similarity \<le> similarity
                       then [(stored_path, real_of_int similarity / 100)] else [])
                 else [])
              (select_others file_path (fuzzy_hashes d)))))"

datatype similarity_type =
  image_similarity | audio_similarity_type | document_similarity | video_similarity | fuzzy_similarity

text \<open>
  \<^verbatim>\<open>find_all_similarities\<close> stores the fingerprints of the file first and then scans;
  its result dictionary lists the modalities in the order the keys are inserted.
\<close>

definition find_all_similarities ::
  "env \<Rightarrow> fingerprint_db \<Rightarrow> string \<Rightarrow>
     (fingerprint_db \<times> (similarity_type \<times> (string \<times> real) list) list) option" where
  "find_all_similarities e d file_path =
     (case store_fingerprints e d file_path of
        None \<Rightarrow> None
      | Some d' \<Rightarrow>
          let file_ext = file_ext_of file_path
          in Some (d',
               (if file_ext \<in> set IMAGE_EXTENSIONS
                then [(image_similarity, find_similar_images e d' file_path)] else []) @
               (if file_ext \<in> set AUDIO_EXTENSIONS
                then [(audio_similarity_type, find_similar_audio e d' file_path)] else []) @
               (if file_ext \<in> set DOCUMENT_EXTENSIONS
                then [(document_similarity, find_similar_documents e d' file_path)] else []) @
               (if file_ext \<in> set VIDEO_EXTENSIONS
                then [(video_similarity, find_similar_videos e d' file_path)] else []) @
               (if file_ext \<in> set SUPPORTED_FILE_TYPES
                then [(fuzzy_similarity, find_fuzzy_similar e d' file_path)] else [])))"

subsection \<open>The event handler\<close>

text \<open>
  What one pass reports: the alert of a duplicate with the original it names and the
  score, the notice of a new unique file, or the notice of a modified file with the file it
  now matches, if any.
\<close>

datatype report =
    ExactDuplicate string real
  | NameSimilarDuplicate string real
  | ModalitySimilarDuplicate similarity_type string real
  | NewUnique
  | FileModified "(similarity_type \<times> string \<times> real) option"

text \<open>
  \<open>file_hashes\<close> maps a content hash to a file name and \<open>mod_db\<close> a file name to its
  hash and modification time; both are saved to their files after every change.
\<close>

record handler_state =
  file_hashes :: "(string \<times> string) list"
  mod_db :: "(string \<times> string \<times> real) list"
  db :: fingerprint_db
  processing_files :: "string set"
  file_modification_times :: "string \<Rightarrow> real option"

text \<open>
  The loop over the three best matches of one modality, and the loop over the modalities:
  the first match that exists with a score above 0.7 ends both.
\<close>

fun first_high_confidence :: "env \<Rightarrow> (string \<times> real) list \<Rightarrow> (string \<times> real) option" where
  "first_high_confidence e [] = None"
| "first_high_confidence e ((similar_path, similarity_score) # rest) =
     (if path_exists e similar_path \<and> 7 / 10 < similarity_score
      then Some (similar_path, similarity_score)
      else first_high_confidence e rest)"

fun first_similarity ::
  "env \<Rightarrow> (similarity_type \<times> (string \<times> real) list) list \<Rightarrow>
     (similarity_type \<times> string \<times> real) option" where
  "first_similarity e [] = None"
| "first_similarity e ((similarity_type, similar_files) # rest) =
     (case (if similar_files \<noteq> [] then first_high_confidence e (take 3 similar_files)
            else None) of
        Some (similar_path, similarity_score) \<Rightarrow>
          Some (similarity_type, similar_path, similarity_score)
      | None \<Rightarrow> first_similarity e rest)"

text \<open>The test of the filename loop on one entry of \<open>file_hashes\<close>.\<close>

definition similar_entry :: "env \<Rightarrow> string \<Rightarrow> string \<times> string \<Rightarrow> bool" where
  "similar_entry e file_name =
     (\<lambda>(existing_hash, existing_name).
        existing_name \<noteq> file_name \<and> is_similar_filename e file_name existing_name)"

text \<open>
  An error that escapes \<^verbatim>\<open>check_for_advanced_duplicates\<close> is caught by its caller, which
  only prints it: the function returns what it had reported and the state it had reached.
\<close>

definition check_for_advanced_duplicates ::
  "env \<Rightarrow> handler_state \<Rightarrow> string \<Rightarrow> string \<Rightarrow> string \<Rightarrow> report option \<times> handler_state" where
  "check_for_advanced_duplicates e s file_path file_name file_hash =
     (case (case map_of (file_hashes s) file_hash of
              Some original_name \<Rightarrow>
                if original_name \<noteq> file_name
                then Some (ExactDuplicate (os_path_join e DOWNLOAD_DIR original_name) 1)
                else None
            | None \<Rightarrow> None) of
        Some r \<Rightarrow> (Some r, s)
      | None \<Rightarrow>
         (case find (similar_entry e file_name) (file_hashes s) of
            Some (existing_hash, existing_name) \<Rightarrow>
              (Some (NameSimilarDuplicate (os_path_join e DOWNLOAD_DIR existing_name) (8 / 10)), s)
          | None \<Rightarrow>
             (case find_all_similarities e (db s) file_path of
                None \<Rightarrow> (None, s)
              | Some (d1, similarities) \<Rightarrow>
                  let s1 = s\<lparr>db := d1\<rparr>
                  in (case first_similarity e similarities of
                        Some (similarity_type, similar_path, similarity_score) \<Rightarrow>
                          (Some (ModalitySimilarDuplicate similarity_type similar_path
                                   similarity_score), s1)
                      | None \<Rightarrow>
                          let s2 = s1\<lparr>file_hashes :=
                                        AList.update file_hash file_name (file_hashes s1)\<rparr>
                          in (case path_getmtime e file_path of
                                None \<Rightarrow> (Some NewUnique, s2)
                              | Some mtime \<Rightarrow>
                                  let s3 = s2\<lparr>mod_db :=
                                        AList.update file_name (file_hash, mtime) (mod_db s2)\<rparr>
                                  in (Some NewUnique,
                                      s3\<lparr>db := (case store_fingerprints e (db s3) file_path of
                                                  Some d2 \<Rightarrow> d2
                                                | None \<Rightarrow> db s3)\<rparr>))))))"

fun first_modified_match ::
  "env \<Rightarrow> string \<Rightarrow> (similarity_type \<times> (string \<times> real) list) list \<Rightarrow>
     (similarity_type \<times> string \<times> real) option" where
  "first_modified_match e file_name [] = None"
| "first_modified_match e file_name ((similarity_type, similar_files) # rest) =
     (case similar_files of
        (similar_path, similarity_score) # _ \<Rightarrow>
          if path_exists e similar_path \<and> 85 / 100 < similarity_score \<and>
             os_path_basename e similar_path \<noteq> file_name
          then Some (similarity_type, similar_path, similarity_score)
          else first_modified_match e file_name rest
      | [] \<Rightarrow> first_modified_match e file_name rest)"

definition check_for_modifications ::
  "env \<Rightarrow> handler_state \<Rightarrow> string \<Rightarrow> string \<Rightarrow> string \<Rightarrow> report option \<times> handler_state" where
  "check_for_modifications e s file_path file_name current_hash =
     (case map_of (mod_db s) file_name of
        None \<Rightarrow> check_for_advanced_duplicates e s file_path file_name current_hash
      | Some (old_hash, old_timestamp) \<Rightarrow>
          if old_hash = current_hash then (None, s)
          else
            (case find_all_similarities e (db s) file_path of
               None \<Rightarrow> (Some (FileModified None), s)
             | Some (d1, similarities) \<Rightarrow>
                 let s1 = s\<lparr>db := d1\<rparr>;
                     m = first_modified_match e file_name similarities
                 in (case path_getmtime e file_path of
                       None \<Rightarrow> (Some (FileModified m), s1)
                     | Some mtime \<Rightarrow>
                         let s2 = s1\<lparr>mod_db :=
                                 AList.update file_name (current_hash, mtime) (mod_db s1)\<rparr>;
                             kept = filter (\<lambda>(h, name). \<not> (name = file_name \<and> h \<noteq> current_hash))
                                      (file_hashes s2);
                             s3 = s2\<lparr>file_hashes := AList.update current_hash file_name kept\<rparr>
                         in (Some (FileModified m),
                             s3\<lparr>db := (case store_fingerprints e (db s3) file_path of
                                         Some d2 \<Rightarrow> d2
                                       | None \<Rightarrow> db s3)\<rparr>))))"

text \<open>
  \<open>obs\<close> is what the stability wait of this pass observes. The \<^verbatim>\<open>finally\<close> of
  \<^verbatim>\<open>monitor_and_process_file\<close> takes the path out of the in-flight set on every way out.
\<close>

definition monitor_and_process_file ::
  "env \<Rightarrow> (nat \<Rightarrow> sample) \<Rightarrow> handler_state \<Rightarrow> string \<Rightarrow> bool \<Rightarrow> report option \<times> handler_state" where
  "monitor_and_process_file e obs s file_path is_new_file =
     (let file_name = os_path_basename e file_path;
          (r, s') =
            (if \<not> wait_for_stable_file obs 30 then (None, s)
             else case calculate_hash e file_path of
                    None \<Rightarrow> (None, s)
                  | Some file_hash \<Rightarrow>
                      if is_new_file
                      then check_for_advanced_duplicates e s file_path file_name file_hash
                      else check_for_modifications e s file_path file_name file_hash)
      in (r, s'\<lparr>processing_files := processing_files s' - {file_path}\<rparr>))"

definition handle_file_event ::
  "env \<Rightarrow> (nat \<Rightarrow> sample) \<Rightarrow> real \<Rightarrow> handler_state \<Rightarrow> string \<Rightarrow> bool \<Rightarrow>
     report option \<times> handler_state" where
  "handle_file_event e obs current_time s file_path is_new_file =
     (if \<not> should_process_file e file_path then (None, s)
      else if file_path \<in> processing_files s then (None, s)
      else if \<not> is_new_file \<and>
              (case file_modification_times s file_path of
                 Some t \<Rightarrow> current_time - t < 2
               | None \<Rightarrow> False)
           then (None, s)
      else monitor_and_process_file e obs
             (s\<lparr>processing_files := insert file_path (processing_files s),
                file_modification_times := (file_modification_times s)(file_path \<mapsto> current_time)\<rparr>)
             file_path is_new_file)"

subsection \<open>A reference environment\<close>

text \<open>
  An instance of the environment for the examples: a reading of the regular
  expressions of the configuration (no pattern of the configuration needs backtracking:
  every repetition is followed by a character outside its class), paths joined with a
  backslash, and every optional library absent unless an example installs it. Its
  arithmetic is exact on finite values, which is what single-precision arithmetic computes
  whenever the exact result is a single-precision number, as it is at every step of the
  examples; an operand that is not finite gives a value that is not a number.
\<close>

definition is_digit :: "char \<Rightarrow> bool" where
  "is_digit c \<longleftrightarrow> c \<in> set ''0123456789''"

fun rx_here :: "pattern \<Rightarrow> bool \<Rightarrow> string \<Rightarrow> string option" where
  "rx_here [] ic s = Some s"
| "rx_here (Bol # as) ic s = None"
| "rx_here (Eol # as) ic s = (if s = [] \<or> s = [CHR 0x0A] then rx_here as ic s else None)"
| "rx_here (Lit c # as) ic s =
     (case s of
        [] \<Rightarrow> None
      | x # xs \<Rightarrow>
          if (if ic then lower_char x = lower_char c else x = c) then rx_here as ic xs else None)"
| "rx_here (WsStar # as) ic s = rx_here as ic (dropWhile is_space s)"
| "rx_here (WsPlus # as) ic s =
     (case s of
        [] \<Rightarrow> None
      | x # xs \<Rightarrow> if is_space x then rx_here as ic (dropWhile is_space xs) else None)"
| "rx_here (Digits # as) ic s =
     (case s of
        [] \<Rightarrow> None
      | x # xs \<Rightarrow> if is_digit x then rx_here as ic (dropWhile is_digit xs) else None)"

fun rx_anywhere :: "pattern \<Rightarrow> bool \<Rightarrow> string \<Rightarrow> bool" where
  "rx_anywhere p ic [] = (rx_here p ic [] \<noteq> None)"
| "rx_anywhere p ic (x # xs) = (rx_here p ic (x # xs) \<noteq> None \<or> rx_anywhere p ic xs)"

definition rx_search :: "pattern \<Rightarrow> bool \<Rightarrow> string \<Rightarrow> bool" where
  "rx_search p ic s =
     (case p of Bol # p' \<Rightarrow> rx_here p' ic s \<noteq> None | _ \<Rightarrow> rx_anywhere p ic s)"

function rx_sub :: "pattern \<Rightarrow> string \<Rightarrow> string" where
  "rx_sub p [] = []"
| "rx_sub p (x # xs) =
     (case rx_here p False (x # xs) of
        None \<Rightarrow> x # rx_sub p xs
      | Some rest \<Rightarrow> if length rest < length (x # xs) then rx_sub p rest else x # rx_sub p xs)"
  by pat_completeness auto
termination
  by (relation "measure (\<lambda>(p, s). length s)") auto

fun finite_values :: "np_float32 list \<Rightarrow> real list option" where
  "finite_values [] = Some []"
| "finite_values (Finite r # xs) = map_option ((#) r) (finite_values xs)"
| "finite_values (_ # xs) = None"

definition exact_dot :: "np_float32 list \<Rightarrow> np_float32 list \<Rightarrow> np_float32" where
  "exact_dot xs ys =
     (case (finite_values xs, finite_values ys) of
        (Some a, Some b) \<Rightarrow> Finite (sum_list (map2 (*) a b))
      | _ \<Rightarrow> NaN)"

definition exact_norm :: "np_float32 list \<Rightarrow> np_float32" where
  "exact_norm xs =
     (case finite_values xs of
        Some a \<Rightarrow> Finite (sqrt (sum_list (map (\<lambda>x. x * x) a)))
      | None \<Rightarrow> NaN)"

definition exact_multiply :: "np_float32 \<Rightarrow> np_float32 \<Rightarrow> np_float32" where
  "exact_multiply a b = (case (a, b) of (Finite x, Finite y) \<Rightarrow> Finite (x * y) | _ \<Rightarrow> NaN)"

definition exact_add :: "np_float32 \<Rightarrow> np_float32 \<Rightarrow> np_float32" where
  "exact_add a b = (case (a, b) of (Finite x, Finite y) \<Rightarrow> Finite (x + y) | _ \<Rightarrow> NaN)"

definition exact_divide :: "np_float32 \<Rightarrow> np_float32 \<Rightarrow> np_float32" where
  "exact_divide a b =
     (case (a, b) of
        (Finite x, Finite y) \<Rightarrow>
          if y \<noteq> 0 then Finite (x / y)
          else if x = 0 then NaN else if 0 < x then PosInf else NegInf
      | _ \<Rightarrow> NaN)"

definition ascii_basename :: "string \<Rightarrow> string" where
  "ascii_basename p = rev (takeWhile (\<lambda>c. c \<noteq> CHR 0x5C \<and> c \<noteq> CHR ''/'') (rev p))"

definition ascii_join :: "string \<Rightarrow> string \<Rightarrow> string" where
  "ascii_join d n = d @ [CHR 0x5C] @ n"

definition base_env :: "(string \<times> stat_result) list \<Rightarrow> (string \<times> string) list \<Rightarrow> env" where
  "base_env files digests =
     \<lparr> os_stat = map_of files,
       os_path_basename = ascii_basename,
       os_path_join = ascii_join,
       re_search = rx_search,
       re_sub = rx_sub,
       PIL_AVAILABLE = False,
       LIBROSA_AVAILABLE = False,
       CV2_AVAILABLE = False,
       SSDEEP_AVAILABLE = False,
       PYMUPDF_AVAILABLE = False,
       DOCX_AVAILABLE = False,
       imagehash_of_file = (\<lambda>_. None),
       librosa_features = (\<lambda>_. None),
       fitz_text = (\<lambda>_. None),
       docx_text = (\<lambda>_. None),
       read_text = (\<lambda>_. None),
       cv2_read = (\<lambda>_. None),
       ssdeep_hash_from_file = (\<lambda>_. None),
       ssdeep_compare = (\<lambda>a b. 0),
       md5_hexdigest = (\<lambda>_. []),
       md5_of_file = map_of digests,
       SequenceMatcher_ratio = (\<lambda>a b. 0),
       np_dot = exact_dot,
       np_linalg_norm = exact_norm,
       float32_multiply = exact_multiply,
       float32_divide = exact_divide,
       float32_add = exact_add \<rparr>"

definition regular_file :: "nat \<Rightarrow> real \<Rightarrow> stat_result" where
  "regular_file n t = \<lparr> st_isreg = True, st_size = n, st_mtime = t \<rparr>"

definition empty_db :: fingerprint_db where
  "empty_db = \<lparr> cursor = True, image_hashes = [], audio_fingerprints = [],
                document_content = [], video_thumbnails = [], fuzzy_hashes = [] \<rparr>"

definition empty_state :: handler_state where
  "empty_state = \<lparr> file_hashes = [], mod_db = [], db = empty_db,
                   processing_files = {}, file_modification_times = (\<lambda>_. None) \<rparr>"

definition in_downloads :: "string \<Rightarrow> string" where
  "in_downloads n = ascii_join DOWNLOAD_DIR n"

subsection \<open>Notions used by the statements\<close>

text \<open>
  Every match of a list names an existing path with a score above the bar of the decision
  loop.
\<close>

definition good_matches :: "env \<Rightarrow> (string \<times> real) list \<Rightarrow> bool" where
  "good_matches e l \<longleftrightarrow> (\<forall>(p, sc) \<in> set l. path_exists e p \<and> 7 / 10 < sc)"

text \<open>
  The first test of the decision does not fire: the content hash is not stored, or it is
  stored under the name of the file itself.
\<close>

definition no_exact_hit :: "handler_state \<Rightarrow> string \<Rightarrow> string \<Rightarrow> bool" where
  "no_exact_hit s file_name file_hash \<longleftrightarrow>
     (\<forall>n. map_of (file_hashes s) file_hash = Some n \<longrightarrow> n = file_name)"

text \<open>
  The state a pass leaves when it reports a new unique file, \<open>d1\<close> being the fingerprint
  database with the fingerprints of the file stored.
\<close>

definition new_unique_state ::
  "env \<Rightarrow> handler_state \<Rightarrow> fingerprint_db \<Rightarrow> string \<Rightarrow> string \<Rightarrow> string \<Rightarrow> handler_state" where
  "new_unique_state e s d1 file_path file_name file_hash =
     (case path_getmtime e file_path of
        None \<Rightarrow> s\<lparr>db := d1, file_hashes := AList.update file_hash file_name (file_hashes s)\<rparr>
      | Some mtime \<Rightarrow>
          s\<lparr>db := d1, file_hashes := AList.update file_hash file_name (file_hashes s),
            mod_db := AList.update file_name (file_hash, mtime) (mod_db s)\<rparr>)"

text \<open>
  The number of rows a path has in the table of a modality, and what
  \<^verbatim>\<open>store_fingerprints\<close> writes for a file with the status \<open>st\<close>, table by table: where
  the extension belongs to the modality and the extractor yields a fingerprint (a non-empty
  text, a non-empty fuzzy hash), the row of the path is deleted and the fresh row appended;
  otherwise the table is as it was.
\<close>

fun own_rows :: "similarity_type \<Rightarrow> string \<Rightarrow> fingerprint_db \<Rightarrow> nat" where
  "own_rows image_similarity file_path d =
     length (filter (\<lambda>r. fst r = file_path) (image_hashes d))"
| "own_rows audio_similarity_type file_path d =
     length (filter (\<lambda>r. fst r = file_path) (audio_fingerprints d))"
| "own_rows document_similarity file_path d =
     length (filter (\<lambda>r. fst r = file_path) (document_content d))"
| "own_rows video_similarity file_path d =
     length (filter (\<lambda>r. fst r = file_path) (video_thumbnails d))"
| "own_rows fuzzy_similarity file_path d =
     length (filter (\<lambda>r. fst r = file_path) (fuzzy_hashes d))"

definition fingerprints_stored ::
  "env \<Rightarrow> string \<Rightarrow> stat_result \<Rightarrow> fingerprint_db \<Rightarrow> fingerprint_db \<Rightarrow> bool" where
  "fingerprints_stored e file_path st d d1 \<longleftrightarrow>
     (let file_ext = file_ext_of file_path;
          file_size = st_size st;
          mod_time = st_mtime st
      in cursor d1 = cursor d \<and>
         image_hashes d1 =
           (case (if file_ext \<in> set IMAGE_EXTENSIONS
                  then calculate_image_hashes e file_path else None) of
              Some hashes \<Rightarrow>
                insert_or_replace file_path (hashes, file_size, mod_time) (image_hashes d)
            | None \<Rightarrow> image_hashes d) \<and>
         audio_fingerprints d1 =
           (case (if file_ext \<in> set AUDIO_EXTENSIONS
                  then calculate_audio_fingerprint e file_path else None) of
              Some fingerprint \<Rightarrow>
                insert_or_replace file_path (fingerprint, file_size, mod_time)
                  (audio_fingerprints d)
            | None \<Rightarrow> audio_fingerprints d) \<and>
         document_content d1 =
           (case (if file_ext \<in> set DOCUMENT_EXTENSIONS
                  then extract_document_content e file_path else None) of
              Some content \<Rightarrow>
                if content \<noteq> [] then
                  insert_or_replace file_path
                    (\<lparr> content_hash = md5_hexdigest e content, text_content = content,
                        doc_word_count = word_count content \<rparr>, file_size, mod_time)
                    (document_content d)
                else document_content d
            | None \<Rightarrow> document_content d) \<and>
         video_thumbnails d1 =
           (case (if file_ext \<in> set VIDEO_EXTENSIONS
                  then calculate_video_thumbnail_hash e file_path else None) of
              Some video_data \<Rightarrow>
                insert_or_replace file_path (video_data, file_size, mod_time)
                  (video_thumbnails d)
            | None \<Rightarrow> video_thumbnails d) \<and>
         fuzzy_hashes d1 =
           (case (if file_ext \<in> set SUPPORTED_FILE_TYPES
                  then calculate_fuzzy_hash e file_path else None) of
              Some fuzzy_hash \<Rightarrow>
                if fuzzy_hash \<noteq> [] then
                  insert_or_replace file_path (fuzzy_hash, file_size, mod_time) (fuzzy_hashes d)
                else fuzzy_hashes d
            | None \<Rightarrow> fuzzy_hashes d))"

text \<open>
  The cosine similarity of two vectors of real numbers, the quantity the specification
  names: the inner product over the product of the Euclidean norms.
\<close>

definition cosine_similarity :: "real list \<Rightarrow> real list \<Rightarrow> real" where
  "cosine_similarity xs ys =
     sum_list (map2 (*) xs ys) /
       (sqrt (sum_list (map (\<lambda>x. x * x) xs)) * sqrt (sum_list (map (\<lambda>x. x * x) ys)))"

text \<open>The rows of every path other than \<open>file_path\<close> are the same in both databases.\<close>

definition others_unchanged :: "string \<Rightarrow> fingerprint_db \<Rightarrow> fingerprint_db \<Rightarrow> bool" where
  "others_unchanged file_path d d' \<longleftrightarrow>
     select_others file_path (image_hashes d') = select_others file_path (image_hashes d) \<and>
     select_others file_path (audio_fingerprints d') =
       select_others file_path (audio_fingerprints d) \<and>
     select_others file_path (document_content d') =
       select_others file_path (document_content d) \<and>
     select_others file_path (video_thumbnails d') =
       select_others file_path (video_thumbnails d) \<and>
     select_others file_path (fuzzy_hashes d') = select_others file_path (fuzzy_hashes d)"

subsection \<open>Example files\<close>

text \<open>An archive \<^verbatim>\<open>a.zip\<close> of 2048 bytes in the download directory, with no optional library.\<close>

definition zip_path :: string where
  "zip_path = in_downloads ''a.zip''"

definition zip_env :: env where
  "zip_env = base_env [(zip_path, regular_file 2048 1)] [(zip_path, ''h1'')]"

definition zip_known :: handler_state where
  "zip_known = empty_state\<lparr>file_hashes := [(''h1'', ''a.zip'')]\<rparr>"

text \<open>
  Images: the new file \<^verbatim>\<open>new.png\<close> with perceptual hash \<open>0x3F\<close>, and three stored
  images, \<^verbatim>\<open>dead.png\<close> (no longer on disk), \<^verbatim>\<open>live.png\<close> at Hamming distance 6 and
  \<^verbatim>\<open>far.png\<close> at Hamming distance 11.
\<close>

definition image_of :: "64 word \<Rightarrow> image_fp" where
  "image_of h = \<lparr> perceptual_hash = h, average_hash = 0, difference_hash = 0, wavelet_hash = 0 \<rparr>"

definition new_png :: string where
  "new_png = in_downloads ''new.png''"

definition live_png :: string where
  "live_png = in_downloads ''live.png''"

definition dead_png :: string where
  "dead_png = in_downloads ''dead.png''"

definition far_png :: string where
  "far_png = in_downloads ''far.png''"

definition image_env :: env where
  "image_env =
     (base_env [(new_png, regular_file 2048 1), (live_png, regular_file 4096 1),
                (far_png, regular_file 4096 1)] [])
       \<lparr> PIL_AVAILABLE := True, imagehash_of_file := map_of [(new_png, image_of 0x3F)] \<rparr>"

definition image_db :: fingerprint_db where
  "image_db =
     empty_db\<lparr>image_hashes :=
       [(dead_png, image_of 0x3F, 4096, 1), (live_png, image_of 0, 4096, 1),
        (far_png, image_of 0x7C0, 4096, 1)]\<rparr>"

definition image_state :: handler_state where
  "image_state = empty_state\<lparr>file_hashes := [(''h0'', ''live.png'')], db := image_db\<rparr>"

text \<open>Videos: the first frame of \<^verbatim>\<open>new.mp4\<close> is at Hamming distance 6 from the stored thumbnail.\<close>

definition new_mp4 :: string where
  "new_mp4 = in_downloads ''new.mp4''"

definition old_mp4 :: string where
  "old_mp4 = in_downloads ''old.mp4''"

definition video_env :: env where
  "video_env =
     (base_env [(new_mp4, regular_file 2048 1), (old_mp4, regular_file 2048 1)] [])
       \<lparr> PIL_AVAILABLE := True, CV2_AVAILABLE := True,
         cv2_read := map_of [(new_mp4, \<lparr> frame_phash = 0x3F, fps = 25, frame_count = 250,
                                         frame_width = 640, frame_height = 480 \<rparr>)] \<rparr>"

definition video_db :: fingerprint_db where
  "video_db =
     empty_db\<lparr>video_thumbnails :=
       [(old_mp4, \<lparr> thumbnail_hash = 0, video_duration = 10, resolution = (640, 480) \<rparr>,
         2048, 1)]\<rparr>"

text \<open>
  Audio: the new file and the stored one have the same one-point spectral centroid and
  orthogonal MFCC vectors; a second stored file has the fingerprint of the new one.
\<close>

definition audio_of :: "real list \<Rightarrow> real list \<Rightarrow> audio_fp" where
  "audio_of c m =
     \<lparr> spectral_centroid = map Finite c, mfcc_features = map Finite m, tempo = 120,
       duration = 30 \<rparr>"

definition new_mp3 :: string where
  "new_mp3 = in_downloads ''new.mp3''"

definition old_mp3 :: string where
  "old_mp3 = in_downloads ''old.mp3''"

definition same_mp3 :: string where
  "same_mp3 = in_downloads ''same.mp3''"

definition audio_env :: env where
  "audio_env =
     (base_env [(new_mp3, regular_file 2048 1), (old_mp3, regular_file 2048 1),
                (same_mp3, regular_file 2048 1)] [])
       \<lparr> LIBROSA_AVAILABLE := True,
         librosa_features := map_of [(new_mp3, audio_of [3] [1, 0])] \<rparr>"

definition audio_db :: "(string \<times> audio_fp) list \<Rightarrow> fingerprint_db" where
  "audio_db rows = empty_db\<lparr>audio_fingerprints := map (\<lambda>(p, a). (p, a, 2048, 1)) rows\<rparr>"

text \<open>
  Documents: \<^verbatim>\<open>long.txt\<close> holds a hundred letters and \<^verbatim>\<open>short.txt\<close> the first
  ninety-nine of them. For a text and a prefix of it shorter than 200 characters difflib
  finds the prefix as the one matching block, so that the ratio is twice the length of the
  prefix over the sum of the lengths; no other pair is compared in the examples.
\<close>

definition prefix_ratio :: "string \<Rightarrow> string \<Rightarrow> real" where
  "prefix_ratio a b =
     (if take (length b) a = b then 2 * real (length b) / real (length a + length b) else 0)"

definition long_txt :: string where
  "long_txt = in_downloads ''long.txt''"

definition short_txt :: string where
  "short_txt = in_downloads ''short.txt''"

definition doc_env :: env where
  "doc_env =
     (base_env [(long_txt, regular_file 2048 1), (short_txt, regular_file 2048 1)] [])
       \<lparr> read_text := map_of [(long_txt, replicate 100 (CHR ''a'')),
                               (short_txt, replicate 99 (CHR ''a''))],
         SequenceMatcher_ratio := prefix_ratio \<rparr>"

definition short_row :: "string \<times> doc_fp \<times> nat \<times> real" where
  "short_row =
     (short_txt,
      \<lparr> content_hash = [], text_content = replicate 99 (CHR ''a''), doc_word_count = 1 \<rparr>,
      2048, 1)"

definition doc_db :: fingerprint_db where
  "doc_db = empty_db\<lparr>document_content := [short_row]\<rparr>"

text \<open>The image table after the fingerprints of \<^verbatim>\<open>new.png\<close> are stored, and a second archive.\<close>

definition image_db_after :: fingerprint_db where
  "image_db_after =
     empty_db\<lparr>image_hashes :=
       [(dead_png, image_of 0x3F, 4096, 1), (live_png, image_of 0, 4096, 1),
        (far_png, image_of 0x7C0, 4096, 1), (new_png, image_of 0x3F, 2048, 1)]\<rparr>"

definition b_zip :: string where "b_zip = in_downloads ''b.zip''"

text \<open>
  A fingerprint database whose connection was not opened, and the state the first pass
  over \<^verbatim>\<open>a.zip\<close> at time 0 leaves.
\<close>

definition closed_db :: fingerprint_db where
  "closed_db = empty_db\<lparr>cursor := False\<rparr>"

definition zip_closed :: handler_state where
  "zip_closed = zip_known\<lparr>db := closed_db\<rparr>"


text \<open>Names: \<^verbatim>\<open>report.pdf\<close> is known, and \<^verbatim>\<open>report (1).pdf\<close> arrives.\<close>

definition report_known :: handler_state where
  "report_known = empty_state\<lparr>file_hashes := [(''h1'', ''report.pdf'')]\<rparr>"


section \<open>The stability wait\<close>

lemma wait_loop_list:
  "wait_loop obs m sc wc ls = wait_list sc ls wc (map obs [wc..<m])"
proof (induction obs m sc wc ls rule: wait_loop.induct)
  case (1 obs m sc wc ls)
  show ?case
  proof (cases "sc < 3 \<and> wc < m")
    case True
    then have u: "[wc..<m] = wc # [Suc wc..<m]" by (simp add: upt_conv_Cons)
    show ?thesis
      using True 1 by (subst wait_loop.simps) (simp add: u split: sample.splits)
  next
    case False
    then show ?thesis
      by (subst wait_loop.simps) (cases "map obs [wc..<m]"; auto)
  qed
qed

lemma stable_tail_rev:
  "stable_tail h = (\<exists>s t. 0 < s \<and> rev h = s # s # s # s # t)"
proof
  assume "stable_tail h"
  then obtain s pre where "0 < s" "h = pre @ [s, s, s, s]"
    by (auto simp: stable_tail_def)
  then have "rev h = s # s # s # s # rev pre" by simp
  with \<open>0 < s\<close> show "\<exists>s t. 0 < s \<and> rev h = s # s # s # s # t" by blast
next
  assume "\<exists>s t. 0 < s \<and> rev h = s # s # s # s # t"
  then obtain s t where s: "0 < s" and r: "rev h = s # s # s # s # t" by blast
  have "h = rev (rev h)" by simp
  also have "\<dots> = rev t @ [s, s, s, s]" by (simp add: r)
  finally show "stable_tail h" using s by (auto simp: stable_tail_def)
qed

lemma stable_tail_length: "stable_tail h \<Longrightarrow> 4 \<le> length h"
  by (auto simp: stable_tail_def)

lemma stable_tail_short: "length h < 4 \<Longrightarrow> \<not> stable_tail h"
  by (auto simp: stable_tail_def)

lemma stable_tail_replicate_reset:
  assumes "c \<noteq> ls \<or> c \<le> 0" "0 < n"
  shows "stable_tail (replicate n ls @ c # t) = stable_tail (c # t)"
proof -
  obtain k where n: "n = Suc k" using assms(2) by (cases n) auto
  have r: "rev (replicate n ls @ c # t) = rev t @ c # ls # replicate k ls"
    by (simp add: n replicate_append_same)
  show ?thesis
  proof (cases "rev t")
    case Nil
    then show ?thesis using assms(1) unfolding stable_tail_rev r by auto
  next
    case (Cons a1 r1)
    note c1 = Cons
    show ?thesis
    proof (cases r1)
      case Nil
      then show ?thesis using assms(1) c1 unfolding stable_tail_rev r by auto
    next
      case (Cons a2 r2)
      note c2 = Cons
      show ?thesis
      proof (cases r2)
        case Nil
        then show ?thesis using assms(1) c1 c2 unfolding stable_tail_rev r by auto
      next
        case (Cons a3 r3)
        then show ?thesis using c1 c2 unfolding stable_tail_rev r by (cases r3) auto
      qed
    qed
  qed
qed

lemma stable_tail_replicate4: "0 < s \<Longrightarrow> stable_tail (replicate 4 s)"
  by (auto simp: stable_tail_def numeral_eq_Suc)

lemma ex_le_Suc_shift:
  "(\<exists>n \<le> Suc m. P n) \<longleftrightarrow> P 0 \<or> (\<exists>n \<le> m. P (Suc n))"
  by (metis Suc_le_mono le0 not0_implies_Suc)

lemma all_le_Suc_shift:
  "(\<forall>n \<le> Suc m. P n) \<longleftrightarrow> P 0 \<and> (\<forall>n \<le> m. P (Suc n))"
  by (metis Suc_le_mono le0 not0_implies_Suc)

lemma wait_list_fst:
  "fst (wait_list sc ls wc xs) \<longleftrightarrow>
     3 \<le> sc \<or> (\<exists>n \<le> length xs. Gone \<notin> set (take n xs) \<and>
                 stable_tail (replicate (Suc sc) ls @ observed_sizes (take n xs)))"
proof (induction xs arbitrary: sc ls wc)
  case Nil
  then show ?case by (auto dest: stable_tail_length)
next
  case (Cons x xs)
  show ?case
  proof (cases "sc < 3")
    case False
    then show ?thesis by simp
  next
    case True
    note sc = True
    have short: "\<not> stable_tail (replicate (Suc sc) ls)"
      using sc by (auto dest: stable_tail_length)
    note split_n = ex_le_Suc_shift all_le_Suc_shift
    show ?thesis
    proof (cases x)
      case Gone
      then show ?thesis using sc short by (simp add: split_n)
    next
      case Failed
      then show ?thesis using sc short Cons.IH[of sc ls "Suc wc"] by (simp add: split_n)
    next
      case (Size c)
      show ?thesis
      proof (cases "int c = ls \<and> 0 < c")
        case True
        have a: "stable_tail (replicate (Suc (Suc sc)) ls) \<Longrightarrow> 3 \<le> Suc sc"
          by (auto dest: stable_tail_length)
        have "3 \<le> Suc sc \<Longrightarrow> Suc (Suc sc) = 4" using sc by simp
        then have b: "3 \<le> Suc sc \<Longrightarrow> stable_tail (replicate (Suc (Suc sc)) ls)"
          using True stable_tail_replicate4[of ls] by simp
        have c: "replicate (Suc sc) ls @ int c # t = replicate (Suc (Suc sc)) ls @ t" for t
          using True by (simp add: replicate_append_same)
        define Q where "Q n \<longleftrightarrow> Gone \<notin> set (take n xs) \<and>
            stable_tail (replicate (Suc (Suc sc)) ls @ observed_sizes (take n xs))" for n
        have lhs: "fst (wait_list sc ls wc (x # xs)) \<longleftrightarrow> 3 \<le> Suc sc \<or> (\<exists>n \<le> length xs. Q n)"
          unfolding Q_def using sc True Size Cons.IH[of "Suc sc" ls "Suc wc"] by simp
        have P0: "\<not> stable_tail (replicate (Suc sc) ls @ observed_sizes (take 0 (x # xs)))"
          using short by simp
        have PS: "(Gone \<notin> set (take (Suc n) (x # xs)) \<and>
                  stable_tail (replicate (Suc sc) ls @ observed_sizes (take (Suc n) (x # xs)))) = Q n" for n
          unfolding Q_def Size by (simp add: c del: replicate_Suc replicate.simps)
        have rhs: "(\<exists>n \<le> length (x # xs). Gone \<notin> set (take n (x # xs)) \<and>
                 stable_tail (replicate (Suc sc) ls @ observed_sizes (take n (x # xs))))
                 \<longleftrightarrow> (\<exists>n \<le> length xs. Q n)"
          unfolding length_Cons ex_le_Suc_shift PS using P0 by blast
        have q0: "3 \<le> Suc sc \<Longrightarrow> Q 0"
          unfolding Q_def using b by simp
        show ?thesis
          unfolding lhs rhs using sc q0 by auto
      next
        case False
        then have ne: "int c \<noteq> ls \<or> int c \<le> 0" by auto
        define Q where "Q n \<longleftrightarrow> Gone \<notin> set (take n xs) \<and>
            stable_tail (replicate (Suc 0) (int c) @ observed_sizes (take n xs))" for n
        have lhs: "fst (wait_list sc ls wc (x # xs)) \<longleftrightarrow> (\<exists>n \<le> length xs. Q n)"
          unfolding Q_def using sc False Size Cons.IH[of 0 "int c" "Suc wc"] by auto
        have P0: "\<not> stable_tail (replicate (Suc sc) ls @ observed_sizes (take 0 (x # xs)))"
          using short by simp
        have PS: "(Gone \<notin> set (take (Suc n) (x # xs)) \<and>
                  stable_tail (replicate (Suc sc) ls @ observed_sizes (take (Suc n) (x # xs)))) = Q n" for n
          unfolding Q_def Size
          using stable_tail_replicate_reset[OF ne, of "Suc sc" "observed_sizes (take n xs)"]
          by simp
        have rhs: "(\<exists>n \<le> length (x # xs). Gone \<notin> set (take n (x # xs)) \<and>
                 stable_tail (replicate (Suc sc) ls @ observed_sizes (take n (x # xs))))
                 \<longleftrightarrow> (\<exists>n \<le> length xs. Q n)"
          unfolding length_Cons ex_le_Suc_shift PS using P0 by blast
        show ?thesis
          unfolding lhs rhs using sc by auto
      qed
    qed
  qed
qed


lemma stable_tail_nonpos_Cons:
  assumes "a \<le> 0"
  shows "stable_tail (a # h) = stable_tail h"
proof (cases h)
  case Nil
  then show ?thesis by (auto dest: stable_tail_length)
next
  case (Cons c t)
  show ?thesis
  proof (cases "c = a")
    case True
    have "stable_tail (replicate (Suc 0) a @ c # t) = stable_tail (c # t)"
      by (rule stable_tail_replicate_reset) (use assms True in auto)
    then show ?thesis by (simp add: Cons)
  next
    case False
    have "stable_tail (replicate (Suc 0) a @ c # t) = stable_tail (c # t)"
      by (rule stable_tail_replicate_reset) (use False in auto)
    then show ?thesis by (simp add: Cons)
  qed
qed

lemma wait_list_gone:
  "sc < 3 \<Longrightarrow> Gone \<notin> set xs \<Longrightarrow>
   \<forall>n \<le> length xs. \<not> stable_tail (replicate (Suc sc) ls @ observed_sizes (take n xs)) \<Longrightarrow>
   wait_list sc ls wc (xs @ Gone # ys) = (False, wc + length xs)"
proof (induction xs arbitrary: sc ls wc)
  case Nil
  then show ?case by simp
next
  case (Cons x xs)
  note sc = Cons.prems(1)
  have ns: "\<And>n. n \<le> length xs \<Longrightarrow>
      \<not> stable_tail (replicate (Suc sc) ls @ observed_sizes (take (Suc n) (x # xs)))"
    using Cons.prems(3) by (metis Suc_le_mono length_Cons)
  show ?case
  proof (cases x)
    case Gone
    then show ?thesis using Cons.prems by simp
  next
    case Failed
    have "wait_list sc ls (Suc wc) (xs @ Gone # ys) = (False, Suc wc + length xs)"
      by (rule Cons.IH) (use Cons.prems ns Failed in auto)
    then show ?thesis using sc Failed by simp
  next
    case (Size c)
    show ?thesis
    proof (cases "int c = ls \<and> 0 < c")
      case True
      have c: "replicate (Suc sc) ls @ int c # t = replicate (Suc (Suc sc)) ls @ t" for t
        using True by (simp add: replicate_append_same)
      have n0: "\<not> stable_tail (replicate (Suc (Suc sc)) ls)"
        using ns[of 0] unfolding Size by (simp add: c del: replicate_Suc replicate.simps)
      have "Suc sc < 3"
      proof (rule ccontr)
        assume "\<not> Suc sc < 3"
        then have "Suc (Suc sc) = 4" using sc by simp
        then show False using n0 stable_tail_replicate4[of ls] True by simp
      qed
      moreover have "\<forall>n \<le> length xs.
          \<not> stable_tail (replicate (Suc (Suc sc)) ls @ observed_sizes (take n xs))"
        using ns unfolding Size by (simp add: c del: replicate_Suc replicate.simps)
      ultimately have "wait_list (Suc sc) ls (Suc wc) (xs @ Gone # ys) = (False, Suc wc + length xs)"
        using Cons.prems(2) by (intro Cons.IH) auto
      then show ?thesis using sc Size True by simp
    next
      case False
      then have ne: "int c \<noteq> ls \<or> int c \<le> 0" by auto
      have "\<forall>n \<le> length xs.
          \<not> stable_tail (replicate (Suc 0) (int c) @ observed_sizes (take n xs))"
        using ns stable_tail_replicate_reset[OF ne, of "Suc sc"] unfolding Size by simp
      then have "wait_list 0 (int c) (Suc wc) (xs @ Gone # ys) = (False, Suc wc + length xs)"
        using Cons.prems(2) by (intro Cons.IH) auto
      then show ?thesis using sc Size False by auto
    qed
  qed
qed

lemma wait_loop_changing:
  assumes "\<forall>j \<le> k. obs j = Size (f j)" "\<forall>j < k. f j \<noteq> f (Suc j)" "i \<le> k" "i < m"
  shows "wait_loop obs m 0 0 (- 1) = wait_loop obs m 0 (Suc i) (int (f i))"
  using assms(3,4)
proof (induction i)
  case 0
  then show ?case using assms(1) by (subst wait_loop.simps) simp
next
  case (Suc i)
  then have "wait_loop obs m 0 0 (- 1) = wait_loop obs m 0 (Suc i) (int (f i))" by simp
  also have "\<dots> = wait_loop obs m 0 (Suc (Suc i)) (int (f (Suc i)))"
  proof -
    have "obs (Suc i) = Size (f (Suc i))" "f i \<noteq> f (Suc i)"
      using Suc.prems assms(1,2) by auto
    then show ?thesis using Suc.prems by (subst wait_loop.simps) simp
  qed
  finally show ?case .
qed

lemma wait_loop_zero:
  assumes "\<forall>j < m. obs j = Size 0" "i < m"
  shows "wait_loop obs m 0 0 (- 1) = wait_loop obs m 0 (Suc i) 0"
  using assms(2)
proof (induction i)
  case 0
  then show ?case using assms(1) by (subst wait_loop.simps) simp
next
  case (Suc i)
  then have "wait_loop obs m 0 0 (- 1) = wait_loop obs m 0 (Suc i) 0" by simp
  also have "\<dots> = wait_loop obs m 0 (Suc (Suc i)) 0"
    using Suc.prems assms(1) by (subst wait_loop.simps) auto
  finally show ?case .
qed

lemma wait_loop_exhausted: "wait_loop obs m sc m ls = (3 \<le> sc, m)"
  by (subst wait_loop.simps) simp

lemma wait_loop_stops_growing:
  assumes "k + 3 < m" "\<forall>j \<le> k + 3. obs j = Size (f j)" "\<forall>j < k. f j \<noteq> f (Suc j)"
    "0 < f k" "f (k + 1) = f k" "f (k + 2) = f k" "f (k + 3) = f k"
  shows "wait_loop obs m 0 0 (- 1) = (True, k + 4)"
proof -
  have o: "obs k = Size (f k)" "obs (Suc k) = Size (f k)" "obs (Suc (Suc k)) = Size (f k)"
    "obs (Suc (Suc (Suc k))) = Size (f k)"
    using assms(2,5,6,7) by (auto simp: numeral_eq_Suc)
  have "wait_loop obs m 0 0 (- 1) = wait_loop obs m 0 (Suc k) (int (f k))"
    by (rule wait_loop_changing[where k = k]) (use assms in auto)
  also have "\<dots> = wait_loop obs m 1 (Suc (Suc k)) (int (f k))"
    using assms(1,4) o by (subst wait_loop.simps) simp
  also have "\<dots> = wait_loop obs m 2 (Suc (Suc (Suc k))) (int (f k))"
    using assms(1,4) o by (subst wait_loop.simps) (simp add: numeral_2_eq_2)
  also have "\<dots> = wait_loop obs m 3 (Suc (Suc (Suc (Suc k)))) (int (f k))"
    using assms(1,4) o by (subst wait_loop.simps) (simp add: numeral_3_eq_3 numeral_2_eq_2)
  also have "\<dots> = (True, k + 4)"
    by (subst wait_loop.simps) simp
  finally show ?thesis .
qed

lemma wait_for_stable_file_iff:
  "wait_for_stable_file obs m \<longleftrightarrow>
     (\<exists>n \<le> m. Gone \<notin> set (map obs [0..<n]) \<and> stable_tail (observed_sizes (map obs [0..<n])))"
proof -
  have t: "take n (map obs [0..<m]) = map obs [0..<n]" if "n \<le> m" for n
    using that by (simp add: take_map min_def)
  have "wait_for_stable_file obs m \<longleftrightarrow>
      (\<exists>n \<le> length (map obs [0..<m]). Gone \<notin> set (take n (map obs [0..<m])) \<and>
         stable_tail (replicate (Suc 0) (- 1) @ observed_sizes (take n (map obs [0..<m]))))"
    unfolding wait_for_stable_file_def wait_loop_list wait_list_fst by simp
  also have "\<dots> \<longleftrightarrow>
      (\<exists>n \<le> m. Gone \<notin> set (map obs [0..<n]) \<and> stable_tail (observed_sizes (map obs [0..<n])))"
    using t by (auto simp: stable_tail_nonpos_Cons)
  finally show ?thesis .
qed

lemma wait_loop_gone:
  assumes "i < m" "obs i = Gone" "Gone \<notin> set (map obs [0..<i])"
    "\<forall>n \<le> i. \<not> stable_tail (observed_sizes (map obs [0..<n]))"
  shows "wait_loop obs m 0 0 (- 1) = (False, i)"
proof -
  have "[0..<m] = [0..<i] @ i # [Suc i..<m]"
  proof -
    have "[0..<m] = [0..<i] @ [i..<m]"
      using assms(1) by (metis le0 less_imp_le_nat upt_add_eq_append le_add_diff_inverse)
    then show ?thesis using assms(1) by (simp add: upt_conv_Cons)
  qed
  then have sp: "map obs [0..<m] = map obs [0..<i] @ Gone # map obs [Suc i..<m]"
    using assms(2) by simp
  have t: "take n (map obs [0..<i]) = map obs [0..<n]" if "n \<le> i" for n
    using that by (simp add: take_map min_def)
  have "wait_list 0 (- 1) 0 (map obs [0..<i] @ Gone # map obs [Suc i..<m])
          = (False, 0 + length (map obs [0..<i]))"
  proof (rule wait_list_gone)
    show "\<forall>n \<le> length (map obs [0..<i]).
        \<not> stable_tail (replicate (Suc 0) (- 1) @ observed_sizes (take n (map obs [0..<i])))"
      using assms(4) t by (simp add: stable_tail_nonpos_Cons)
  qed (use assms(3) in auto)
  then show ?thesis unfolding wait_loop_list sp by simp
qed

lemma wait_loop_never_stable:
  assumes "\<forall>j < m. obs j = Size (f j)" "\<forall>j. Suc j < m \<longrightarrow> f j \<noteq> f (Suc j)"
  shows "\<not> fst (wait_loop obs m 0 0 (- 1))"
proof (cases m)
  case 0
  then show ?thesis by (subst wait_loop.simps) simp
next
  case (Suc k)
  have "wait_loop obs m 0 0 (- 1) = wait_loop obs m 0 (Suc k) (int (f k))"
    by (rule wait_loop_changing[where k = k]) (use assms Suc in auto)
  then show ?thesis using Suc by (simp add: wait_loop_exhausted)
qed

lemma wait_loop_all_zero:
  assumes "\<forall>j < m. obs j = Size 0"
  shows "\<not> fst (wait_loop obs m 0 0 (- 1))"
proof (cases m)
  case 0
  then show ?thesis by (subst wait_loop.simps) simp
next
  case (Suc k)
  have "wait_loop obs m 0 0 (- 1) = wait_loop obs m 0 (Suc k) 0"
    by (rule wait_loop_zero) (use assms Suc in auto)
  then show ?thesis using Suc by (simp add: wait_loop_exhausted)
qed

lemma length_observed_sizes: "length (observed_sizes xs) \<le> length xs"
  by (induction xs rule: observed_sizes.induct) auto

text \<open>
  Claim C3. With three stable samples required and at most thirty rounds, the wait succeeds
  exactly when, within the first thirty rounds and before the path is seen missing, three
  consecutive size readings each repeat the positive size read before them (four equal
  positive readings in a row). When the path is missing at a round the loop reaches, it
  returns failure at that round without sampling further. A file that grows at every one of
  the thirty samples never succeeds; a file that grows up to sample \<open>k\<close> and keeps that
  positive size succeeds after exactly three further samples, at round \<open>k + 4\<close>; a file
  whose size stays zero never succeeds.
\<close>

theorem wait_for_stable_file_spec:
  "(wait_for_stable_file obs 30 \<longleftrightarrow>
      (\<exists>n \<le> 30. Gone \<notin> set (map obs [0..<n]) \<and>
                 stable_tail (observed_sizes (map obs [0..<n]))))
   \<and> (i < 30 \<and> obs i = Gone \<and> Gone \<notin> set (map obs [0..<i]) \<and>
        (\<forall>n \<le> i. \<not> stable_tail (observed_sizes (map obs [0..<n])))
        \<longrightarrow> wait_loop obs 30 0 0 (- 1) = (False, i))
   \<and> ((\<forall>j < 30. obs j = Size (f j)) \<and> (\<forall>j < 29. f j < f (Suc j))
        \<longrightarrow> \<not> wait_for_stable_file obs 30)
   \<and> (k + 3 < 30 \<and> (\<forall>j \<le> k + 3. obs j = Size (g j)) \<and> (\<forall>j < k. g j < g (Suc j)) \<and>
        0 < g k \<and> g (k + 1) = g k \<and> g (k + 2) = g k \<and> g (k + 3) = g k
        \<longrightarrow> wait_loop obs 30 0 0 (- 1) = (True, k + 4))
   \<and> ((\<forall>j < 30. obs j = Size 0) \<longrightarrow> \<not> wait_for_stable_file obs 30)"
proof (intro conjI impI)
  show "wait_for_stable_file obs 30 \<longleftrightarrow>
      (\<exists>n \<le> 30. Gone \<notin> set (map obs [0..<n]) \<and>
                 stable_tail (observed_sizes (map obs [0..<n])))"
    by (rule wait_for_stable_file_iff)
next
  assume "i < 30 \<and> obs i = Gone \<and> Gone \<notin> set (map obs [0..<i]) \<and>
        (\<forall>n \<le> i. \<not> stable_tail (observed_sizes (map obs [0..<n])))"
  then show "wait_loop obs 30 0 0 (- 1) = (False, i)"
    by (intro wait_loop_gone) auto
next
  assume a: "(\<forall>j < 30. obs j = Size (f j)) \<and> (\<forall>j < 29. f j < f (Suc j))"
  have "\<not> fst (wait_loop obs 30 0 0 (- 1))"
  proof (rule wait_loop_never_stable)
    show "\<forall>j. Suc j < 30 \<longrightarrow> f j \<noteq> f (Suc j)"
    proof (intro allI impI)
      fix j :: nat assume "Suc j < 30"
      then have "j < 29" by simp
      with a have "f j < f (Suc j)" by blast
      then show "f j \<noteq> f (Suc j)" by simp
    qed
  qed (use a in blast)
  then show "\<not> wait_for_stable_file obs 30" by (simp add: wait_for_stable_file_def)
next
  assume a: "k + 3 < 30 \<and> (\<forall>j \<le> k + 3. obs j = Size (g j)) \<and> (\<forall>j < k. g j < g (Suc j)) \<and>
        0 < g k \<and> g (k + 1) = g k \<and> g (k + 2) = g k \<and> g (k + 3) = g k"
  have "\<forall>j < k. g j \<noteq> g (Suc j)"
  proof (intro allI impI)
    fix j assume "j < k"
    with a have "g j < g (Suc j)" by blast
    then show "g j \<noteq> g (Suc j)" by simp
  qed
  then show "wait_loop obs 30 0 0 (- 1) = (True, k + 4)"
    using a by (intro wait_loop_stops_growing[where f = g]) simp_all
next
  assume "\<forall>j < 30. obs j = Size 0"
  then have "\<not> fst (wait_loop obs 30 0 0 (- 1))" by (rule wait_loop_all_zero)
  then show "\<not> wait_for_stable_file obs 30" by (simp add: wait_for_stable_file_def)
qed

theorem wait_for_stable_file_spec_witness:
  "wait_for_stable_file (\<lambda>i. Size 5) 30
   \<and> wait_loop (\<lambda>i. if i = 2 then Gone else Size (i + 1)) 30 0 0 (- 1) = (False, 2)
   \<and> \<not> wait_for_stable_file (\<lambda>i. Size (i + 1)) 30
   \<and> wait_loop (\<lambda>i. Size (min i 5 + 1)) 30 0 0 (- 1) = (True, 9)
   \<and> \<not> wait_for_stable_file (\<lambda>i. Size 0) 30"
proof (intro conjI)
  have u4: "[0..<4] = [0, 1, 2, 3]" by (simp add: upt_rec)
  have "stable_tail (observed_sizes (map (\<lambda>i. Size 5) [0..<4]))"
    unfolding stable_tail_def u4 by (intro exI[of _ 5] exI[of _ "[]"]) simp
  then have "\<exists>n \<le> 30. Gone \<notin> set (map (\<lambda>i. Size 5) [0..<n]) \<and>
      stable_tail (observed_sizes (map (\<lambda>i. Size 5) [0..<n]))"
    by (intro exI[of _ 4]) auto
  then show "wait_for_stable_file (\<lambda>i. Size 5) 30"
    using wait_for_stable_file_spec[of "\<lambda>i. Size 5", THEN conjunct1] by blast
next
  let ?obs = "\<lambda>i::nat. if i = 2 then Gone else Size (i + 1)"
  have "\<forall>n \<le> 2. \<not> stable_tail (observed_sizes (map ?obs [0..<n]))"
  proof (intro allI impI)
    fix n :: nat assume "n \<le> 2"
    have "length (observed_sizes (map ?obs [0..<n])) \<le> n"
      using length_observed_sizes[of "map ?obs [0..<n]"] by simp
    then show "\<not> stable_tail (observed_sizes (map ?obs [0..<n]))"
      using \<open>n \<le> 2\<close> by (auto dest!: stable_tail_length)
  qed
  moreover have "Gone \<notin> set (map ?obs [0..<2])" by (auto simp: upt_rec)
  ultimately show "wait_loop ?obs 30 0 0 (- 1) = (False, 2)"
    using wait_for_stable_file_spec[of ?obs 2, THEN conjunct2, THEN conjunct1] by simp
next
  show "\<not> wait_for_stable_file (\<lambda>i. Size (i + 1)) 30"
    using wait_for_stable_file_spec[of "\<lambda>i. Size (i + 1)" _ "\<lambda>i. i + 1",
        THEN conjunct2, THEN conjunct2, THEN conjunct1] by simp
next
  show "wait_loop (\<lambda>i. Size (min i 5 + 1)) 30 0 0 (- 1) = (True, 9)"
    using wait_for_stable_file_spec[of "\<lambda>i. Size (min i 5 + 1)" _ _ 5 "\<lambda>i. min i 5 + 1",
        THEN conjunct2, THEN conjunct2, THEN conjunct2, THEN conjunct1]
    by simp
next
  show "\<not> wait_for_stable_file (\<lambda>i. Size 0) 30"
    using wait_for_stable_file_spec[of "\<lambda>i. Size 0",
        THEN conjunct2, THEN conjunct2, THEN conjunct2, THEN conjunct2] by simp
qed

section \<open>Admission filter and filename similarity\<close>

lemma is_similar_filename_ext:
  "lower (snd (splitext file1)) \<noteq> lower (snd (splitext file2)) \<Longrightarrow>
   \<not> is_similar_filename e file1 file2"
  by (simp add: is_similar_filename_def split_beta)

lemma should_process_file_size:
  "should_process_file e p \<Longrightarrow>
   \<exists>n. path_getsize e p = Some n \<and> MIN_FILE_SIZE \<le> n \<and> n \<le> MAX_FILE_SIZE"
  by (auto simp: should_process_file_def Let_def split: if_splits option.splits)

text \<open>
  Claim C10. A file whose size is below 1024 bytes or above 500 MB is rejected by
  \<^verbatim>\<open>should_process_file\<close>, and the event handler returns at once: nothing is reported
  and the state is unchanged.
\<close>

theorem size_limits_reject:
  "path_getsize e file_path = Some n \<and> (n < 1024 \<or> 500 * 1024 * 1024 < n)
   \<longrightarrow> \<not> should_process_file e file_path
       \<and> handle_file_event e obs current_time s file_path is_new_file = (None, s)"
proof (intro impI)
  assume a: "path_getsize e file_path = Some n \<and> (n < 1024 \<or> 500 * 1024 * 1024 < n)"
  have "\<not> should_process_file e file_path"
  proof
    assume "should_process_file e file_path"
    from should_process_file_size[OF this] a show False
      by (auto simp: MIN_FILE_SIZE_def MAX_FILE_SIZE_def)
  qed
  then show "\<not> should_process_file e file_path
       \<and> handle_file_event e obs current_time s file_path is_new_file = (None, s)"
    by (simp add: handle_file_event_def)
qed

theorem size_limits_reject_witness:
  "\<not> should_process_file (base_env [(in_downloads ''a.zip'', regular_file 1023 0)] [])
        (in_downloads ''a.zip'')
   \<and> handle_file_event (base_env [(in_downloads ''a.zip'', regular_file 1023 0)] [])
        (\<lambda>i. Size 1023) 0 empty_state (in_downloads ''a.zip'') True = (None, empty_state)
   \<and> \<not> should_process_file (base_env [(in_downloads ''b.zip'', regular_file 524288001 0)] [])
        (in_downloads ''b.zip'')"
proof -
  have 1: "path_getsize (base_env [(in_downloads ''a.zip'', regular_file 1023 0)] [])
      (in_downloads ''a.zip'') = Some 1023 \<and> ((1023::nat) < 1024 \<or> 500 * 1024 * 1024 < (1023::nat))"
    by (simp add: path_getsize_def base_env_def regular_file_def)
  have 2: "path_getsize (base_env [(in_downloads ''b.zip'', regular_file 524288001 0)] [])
      (in_downloads ''b.zip'') = Some 524288001 \<and>
      ((524288001::nat) < 1024 \<or> 500 * 1024 * 1024 < (524288001::nat))"
    by (simp add: path_getsize_def base_env_def regular_file_def)
  show ?thesis
    using size_limits_reject[rule_format, OF 1, of "\<lambda>i. Size 1023" 0 empty_state True]
      size_limits_reject[rule_format, OF 2, of "\<lambda>i. Size 1023" 0 empty_state True]
    by blast
qed

section \<open>Similarity scans\<close>

lemma in_scan:
  "(p, sc) \<in> set (sorted_by_score (concat (map (\<lambda>(sp, st, m). g sp st) (select_others fp t))))
     \<longleftrightarrow> (\<exists>sp st sz mt. (sp, st, sz, mt) \<in> set t \<and> sp \<noteq> fp \<and> (p, sc) \<in> set (g sp st))"
  by (force simp: sorted_by_score_def select_others_def split_beta)

lemma in_set_if: "x \<in> set (if c then l else []) \<longleftrightarrow> c \<and> x \<in> set l"
  by simp

lemma in_audio_case:
  "(p, sc) \<in> set (case x of None \<Rightarrow> []
      | Some similarity \<Rightarrow>
          if float_ge similarity THRESHOLD_audio_similarity
          then [(sp, float_of similarity)] else []) \<longleftrightarrow>
   p = sp \<and> (\<exists>similarity. x = Some similarity \<and> float_ge similarity (85 / 100) \<and>
              sc = float_of similarity)"
  by (auto simp: THRESHOLD_audio_similarity_def split: if_splits option.splits)

lemma float_ge_score: "float_ge x t \<Longrightarrow> t \<le> 1 \<Longrightarrow> t \<le> float_of x"
  by (cases x) (simp_all add: float_ge_def float_of_def order_trans[of t 1 "2 ^ 128"])

lemma in_singleton_if:
  "(p, sc) \<in> set (if c then [(q, v)] else []) \<longleftrightarrow> c \<and> p = q \<and> sc = v"
  by auto

lemma calculate_image_hashes_Some:
  "calculate_image_hashes e fp = Some h \<Longrightarrow> PIL_AVAILABLE e"
  by (auto simp: calculate_image_hashes_def split: if_splits)

lemma calculate_video_thumbnail_hash_Some:
  "calculate_video_thumbnail_hash e fp = Some v \<Longrightarrow> CV2_AVAILABLE e"
  by (auto simp: calculate_video_thumbnail_hash_def split: if_splits)

lemma calculate_audio_fingerprint_Some:
  "calculate_audio_fingerprint e fp = Some v \<Longrightarrow> LIBROSA_AVAILABLE e"
  by (auto simp: calculate_audio_fingerprint_def split: if_splits)

lemma calculate_fuzzy_hash_Some:
  "calculate_fuzzy_hash e fp = Some v \<Longrightarrow> SSDEEP_AVAILABLE e"
  by (auto simp: calculate_fuzzy_hash_def split: if_splits)

lemma find_similar_images_iff:
  "(p, sc) \<in> set (find_similar_images e d fp) \<longleftrightarrow>
     cursor d \<and>
     (\<exists>h stored sz mt. calculate_image_hashes e fp = Some h \<and>
        (p, stored, sz, mt) \<in> set (image_hashes d) \<and> p \<noteq> fp \<and> path_exists e p \<and>
        hamming (perceptual_hash h) (perceptual_hash stored) \<le> 10 \<and>
        sc = 1 - real (hamming (perceptual_hash h) (perceptual_hash stored)) / 64)"
proof (cases "cursor d \<and> PIL_AVAILABLE e")
  case False
  then show ?thesis
    by (auto simp: find_similar_images_def dest: calculate_image_hashes_Some)
next
  case True
  show ?thesis
  proof (cases "calculate_image_hashes e fp")
    case None
    then show ?thesis by (simp add: find_similar_images_def)
  next
    case (Some h)
    show ?thesis
      using True Some
      by (simp add: find_similar_images_def in_scan THRESHOLD_image_hash_def Let_def
            if_distrib[of set] in_singleton_if cong: if_cong) blast
  qed
qed

lemma find_similar_videos_iff:
  "(p, sc) \<in> set (find_similar_videos e d fp) \<longleftrightarrow>
     cursor d \<and>
     (\<exists>h stored sz mt. calculate_video_thumbnail_hash e fp = Some h \<and>
        (p, stored, sz, mt) \<in> set (video_thumbnails d) \<and> p \<noteq> fp \<and> path_exists e p \<and>
        hamming (thumbnail_hash h) (thumbnail_hash stored) \<le> 10 \<and>
        sc = 1 - real (hamming (thumbnail_hash h) (thumbnail_hash stored)) / 64)"
proof (cases "cursor d \<and> CV2_AVAILABLE e")
  case False
  then show ?thesis
    by (auto simp: find_similar_videos_def dest: calculate_video_thumbnail_hash_Some)
next
  case True
  show ?thesis
  proof (cases "calculate_video_thumbnail_hash e fp")
    case None
    then show ?thesis by (simp add: find_similar_videos_def)
  next
    case (Some h)
    show ?thesis
      using True Some
      by (simp add: find_similar_videos_def in_scan THRESHOLD_image_hash_def Let_def
            if_distrib[of set] in_singleton_if cong: if_cong) blast
  qed
qed

lemma find_similar_audio_iff:
  "(p, sc) \<in> set (find_similar_audio e d fp) \<longleftrightarrow>
     cursor d \<and>
     (\<exists>cur stored sz mt. calculate_audio_fingerprint e fp = Some cur \<and>
        (p, stored, sz, mt) \<in> set (audio_fingerprints d) \<and> p \<noteq> fp \<and> path_exists e p \<and>
        (\<exists>similarity. audio_similarity e cur stored = Some similarity \<and>
           float_ge similarity (85 / 100) \<and> sc = float_of similarity))"
proof (cases "cursor d \<and> LIBROSA_AVAILABLE e")
  case False
  then show ?thesis
    by (auto simp: find_similar_audio_def dest: calculate_audio_fingerprint_Some)
next
  case True
  show ?thesis
  proof (cases "calculate_audio_fingerprint e fp")
    case None
    then show ?thesis by (simp add: find_similar_audio_def)
  next
    case (Some h)
    show ?thesis
      using True Some
    proof -
      have "(p, sc) \<in> set (find_similar_audio e d fp) \<longleftrightarrow>
          (\<exists>sp st sz mt. (sp, st, sz, mt) \<in> set (audio_fingerprints d) \<and> sp \<noteq> fp \<and>
             path_exists e sp \<and> p = sp \<and>
             (\<exists>similarity. audio_similarity e h st = Some similarity \<and>
                float_ge similarity (85 / 100) \<and> sc = float_of similarity))"
        using True Some unfolding find_similar_audio_def
        by (simp only: if_False simp_thms option.case in_scan in_set_if in_audio_case)
      then show ?thesis using True Some by auto
    qed
  qed
qed

lemma find_similar_documents_iff:
  "(p, sc) \<in> set (find_similar_documents e d fp) \<longleftrightarrow>
     cursor d \<and>
     (\<exists>content stored sz mt. extract_document_content e fp = Some content \<and>
        100 \<le> length (strip content) \<and>
        (p, stored, sz, mt) \<in> set (document_content d) \<and> p \<noteq> fp \<and> path_exists e p \<and>
        text_content stored \<noteq> [] \<and>
        sc = SequenceMatcher_ratio e content (text_content stored) \<and> 85 / 100 \<le> sc)"
proof (cases "cursor d")
  case False
  then show ?thesis by (auto simp: find_similar_documents_def)
next
  case True
  show ?thesis
  proof (cases "extract_document_content e fp")
    case None
    then show ?thesis by (simp add: find_similar_documents_def)
  next
    case (Some content)
    show ?thesis
    proof (cases "content = [] \<or> length (strip content) < 100")
      case True
      then have "length (strip content) < 100" by (auto simp: strip_def)
      then show ?thesis using Some \<open>cursor d\<close> by (auto simp: find_similar_documents_def)
    next
      case False
      then show ?thesis
        using \<open>cursor d\<close> Some
        by (simp add: find_similar_documents_def in_scan THRESHOLD_text_similarity_def Let_def)
           (auto split: if_splits)
    qed
  qed
qed

lemma find_fuzzy_similar_iff:
  "(p, sc) \<in> set (find_fuzzy_similar e d fp) \<longleftrightarrow>
     cursor d \<and>
     (\<exists>h stored sz mt. calculate_fuzzy_hash e fp = Some h \<and> h \<noteq> [] \<and>
        (p, stored, sz, mt) \<in> set (fuzzy_hashes d) \<and> p \<noteq> fp \<and> path_exists e p \<and>
        80 \<le> ssdeep_compare e h stored \<and>
        sc = real_of_int (ssdeep_compare e h stored) / 100)"
proof (cases "cursor d \<and> SSDEEP_AVAILABLE e")
  case False
  then show ?thesis
    by (auto simp: find_fuzzy_similar_def dest: calculate_fuzzy_hash_Some)
next
  case True
  show ?thesis
  proof (cases "calculate_fuzzy_hash e fp")
    case None
    then show ?thesis by (simp add: find_fuzzy_similar_def)
  next
    case (Some h)
    show ?thesis
      using True Some
      by (simp add: find_fuzzy_similar_def in_scan THRESHOLD_fuzzy_similarity_def Let_def)
         (auto split: if_splits)
  qed
qed

lemma hamming_card:
  "hamming a b = card {i. i < 64 \<and> bit a i \<noteq> bit b i}"
proof -
  have "hamming a b = card {i. i \<in> set [0..<64] \<and> bit (a XOR b) i}"
    unfolding hamming_def by (simp add: distinct_length_filter Int_def conj_commute)
  also have "{i. i \<in> set [0..<64] \<and> bit (a XOR b) i} = {i. i < 64 \<and> bit a i \<noteq> bit b i}"
    by (auto simp: bit_xor_iff)
  finally show ?thesis .
qed

lemma select_others_insert_or_replace [simp]:
  "select_others k (insert_or_replace k v t) = select_others k t"
  by (simp add: select_others_def insert_or_replace_def)

lemma insert_or_replace_idem [simp]:
  "insert_or_replace k v (insert_or_replace k v t) = insert_or_replace k v t"
  by (simp add: insert_or_replace_def)

lemma store_modality_frame:
  "cursor (store_modality e d fp x n t) = cursor d"
  "select_others fp (image_hashes (store_modality e d fp x n t)) = select_others fp (image_hashes d)"
  "select_others fp (audio_fingerprints (store_modality e d fp x n t)) = select_others fp (audio_fingerprints d)"
  "select_others fp (document_content (store_modality e d fp x n t)) = select_others fp (document_content d)"
  "select_others fp (video_thumbnails (store_modality e d fp x n t)) = select_others fp (video_thumbnails d)"
  "fuzzy_hashes (store_modality e d fp x n t) = fuzzy_hashes d"
  by (simp_all add: store_modality_def split: option.splits)

lemma store_fuzzy_frame:
  "cursor (store_fuzzy e d fp x n t) = cursor d"
  "image_hashes (store_fuzzy e d fp x n t) = image_hashes d"
  "audio_fingerprints (store_fuzzy e d fp x n t) = audio_fingerprints d"
  "document_content (store_fuzzy e d fp x n t) = document_content d"
  "video_thumbnails (store_fuzzy e d fp x n t) = video_thumbnails d"
  "select_others fp (fuzzy_hashes (store_fuzzy e d fp x n t)) = select_others fp (fuzzy_hashes d)"
  by (simp_all add: store_fuzzy_def split: option.splits)

lemma store_modality_idem:
  "store_modality e (store_modality e d fp x n t) fp x n t = store_modality e d fp x n t"
  by (simp add: store_modality_def split: option.splits)

lemma store_fuzzy_idem:
  "store_fuzzy e (store_fuzzy e d fp x n t) fp x n t = store_fuzzy e d fp x n t"
  by (simp add: store_fuzzy_def split: option.splits)

lemma store_modality_fuzzy_commute:
  "store_modality e (store_fuzzy e d fp x n t) fp x n t = store_fuzzy e (store_modality e d fp x n t) fp x n t"
  by (simp add: store_modality_def store_fuzzy_def split: option.splits)

lemma store_fingerprints_frame:
  assumes "store_fingerprints e d fp = Some d'"
  shows "cursor d' = cursor d"
    and "select_others fp (image_hashes d') = select_others fp (image_hashes d)"
    and "select_others fp (audio_fingerprints d') = select_others fp (audio_fingerprints d)"
    and "select_others fp (document_content d') = select_others fp (document_content d)"
    and "select_others fp (video_thumbnails d') = select_others fp (video_thumbnails d)"
    and "select_others fp (fuzzy_hashes d') = select_others fp (fuzzy_hashes d)"
  using assms
  by (auto simp: store_fingerprints_def Let_def store_modality_frame store_fuzzy_frame
      split: if_splits option.splits)

lemma store_fingerprints_idem:
  assumes "store_fingerprints e d fp = Some d'"
  shows "store_fingerprints e d' fp = Some d'"
  using assms
  by (auto simp: store_fingerprints_def Let_def store_modality_frame store_fuzzy_frame
      store_modality_fuzzy_commute store_modality_idem store_fuzzy_idem
      split: if_splits option.splits)

section \<open>The decision procedure\<close>

lemma first_high_confidence_in:
  "first_high_confidence e l = Some (p, sc) \<Longrightarrow> (p, sc) \<in> set l"
  by (induction e l rule: first_high_confidence.induct) (auto split: if_splits)

lemma first_similarity_in:
  "first_similarity e sims = Some (ty, p, sc) \<Longrightarrow> \<exists>l. (ty, l) \<in> set sims \<and> (p, sc) \<in> set l"
proof (induction e sims rule: first_similarity.induct)
  case (1 e)
  then show ?case by simp
next
  case (2 e similarity_type similar_files rest)
  show ?case
  proof (cases "if similar_files \<noteq> [] then first_high_confidence e (take 3 similar_files) else None")
    case None
    then show ?thesis using 2 by auto
  next
    case (Some a)
    obtain q v where a: "a = (q, v)" by (cases a)
    from Some a have "first_high_confidence e (take 3 similar_files) = Some (q, v)"
      by (auto split: if_splits)
    then have "(q, v) \<in> set similar_files"
      by (auto dest!: first_high_confidence_in in_set_takeD)
    then show ?thesis using 2(2) Some a by auto
  qed
qed

lemma first_high_confidence_top:
  "good_matches e l \<Longrightarrow> l \<noteq> [] \<Longrightarrow> first_high_confidence e (take 3 l) = Some (hd l)"
  by (cases l) (auto simp: good_matches_def numeral_3_eq_3)

lemma first_similarity_top:
  "\<forall>(ty, l) \<in> set sims. good_matches e l \<Longrightarrow>
   first_similarity e sims =
     (case dropWhile (\<lambda>(ty, l). l = []) sims of
        [] \<Rightarrow> None
      | (ty, l) # _ \<Rightarrow> Some (ty, hd l))"
proof (induction sims)
  case Nil
  then show ?case by simp
next
  case (Cons a sims)
  obtain ty l where a: "a = (ty, l)" by (cases a)
  show ?case
  proof (cases "l = []")
    case True
    then show ?thesis using Cons a by simp
  next
    case False
    have "good_matches e l" using Cons.prems a by simp
    from first_high_confidence_top[OF this False] show ?thesis
      using a False by (cases "hd l") simp
  qed
qed

lemma good_images: "good_matches e (find_similar_images e d fp)"
  unfolding good_matches_def
proof (clarify)
  fix p sc assume "(p, sc) \<in> set (find_similar_images e d fp)"
  then obtain n :: nat where "path_exists e p" "n \<le> 10" "sc = 1 - real n / 64"
    unfolding find_similar_images_iff by blast
  then show "path_exists e p \<and> 7 / 10 < sc" by simp
qed

lemma good_videos: "good_matches e (find_similar_videos e d fp)"
  unfolding good_matches_def
proof (clarify)
  fix p sc assume "(p, sc) \<in> set (find_similar_videos e d fp)"
  then obtain n :: nat where "path_exists e p" "n \<le> 10" "sc = 1 - real n / 64"
    unfolding find_similar_videos_iff by blast
  then show "path_exists e p \<and> 7 / 10 < sc" by simp
qed

lemma good_audio: "good_matches e (find_similar_audio e d fp)"
  unfolding good_matches_def
proof (clarify)
  fix p sc assume "(p, sc) \<in> set (find_similar_audio e d fp)"
  then have "path_exists e p" "85 / 100 \<le> sc"
    unfolding find_similar_audio_iff using float_ge_score[of _ "85 / 100"] by auto
  then show "path_exists e p \<and> 7 / 10 < sc" by simp
qed

lemma good_documents: "good_matches e (find_similar_documents e d fp)"
  unfolding good_matches_def
proof (clarify)
  fix p sc assume "(p, sc) \<in> set (find_similar_documents e d fp)"
  then have "path_exists e p" "85 / 100 \<le> sc"
    unfolding find_similar_documents_iff by blast+
  then show "path_exists e p \<and> 7 / 10 < sc" by simp
qed

lemma good_fuzzy: "good_matches e (find_fuzzy_similar e d fp)"
  unfolding good_matches_def
proof (clarify)
  fix p sc assume "(p, sc) \<in> set (find_fuzzy_similar e d fp)"
  then obtain n :: int where "path_exists e p" "80 \<le> n" "sc = real_of_int n / 100"
    unfolding find_fuzzy_similar_iff by blast
  then show "path_exists e p \<and> 7 / 10 < sc" by simp
qed

lemma find_all_similarities_SomeD:
  assumes "find_all_similarities e d fp = Some (d', sims)"
  shows "store_fingerprints e d fp = Some d'"
    and "sims =
       (if file_ext_of fp \<in> set IMAGE_EXTENSIONS
        then [(image_similarity, find_similar_images e d' fp)] else []) @
       (if file_ext_of fp \<in> set AUDIO_EXTENSIONS
        then [(audio_similarity_type, find_similar_audio e d' fp)] else []) @
       (if file_ext_of fp \<in> set DOCUMENT_EXTENSIONS
        then [(document_similarity, find_similar_documents e d' fp)] else []) @
       (if file_ext_of fp \<in> set VIDEO_EXTENSIONS
        then [(video_similarity, find_similar_videos e d' fp)] else []) @
       (if file_ext_of fp \<in> set SUPPORTED_FILE_TYPES
        then [(fuzzy_similarity, find_fuzzy_similar e d' fp)] else [])"
  using assms by (auto simp: find_all_similarities_def Let_def split: option.splits)

lemma find_all_similarities_entries:
  assumes "find_all_similarities e d fp = Some (d', sims)" "(ty, l) \<in> set sims"
  shows "l = (case ty of
                image_similarity \<Rightarrow> find_similar_images e d' fp
              | audio_similarity_type \<Rightarrow> find_similar_audio e d' fp
              | document_similarity \<Rightarrow> find_similar_documents e d' fp
              | video_similarity \<Rightarrow> find_similar_videos e d' fp
              | fuzzy_similarity \<Rightarrow> find_fuzzy_similar e d' fp)"
  using assms(2) unfolding find_all_similarities_SomeD(2)[OF assms(1)]
  by (auto split: if_splits)

lemma find_all_similarities_good:
  assumes "find_all_similarities e d fp = Some (d', sims)"
  shows "\<forall>(ty, l) \<in> set sims. good_matches e l"
proof (clarify)
  fix ty l assume "(ty, l) \<in> set sims"
  from find_all_similarities_entries[OF assms this] show "good_matches e l"
    by (cases ty) (simp_all add: good_images good_audio good_documents good_videos good_fuzzy)
qed


lemma cfad_exact:
  assumes "map_of (file_hashes s) h = Some n" "n \<noteq> name"
  shows "check_for_advanced_duplicates e s fp name h =
           (Some (ExactDuplicate (os_path_join e DOWNLOAD_DIR n) 1), s)"
  using assms by (simp add: check_for_advanced_duplicates_def)

lemma cfad_no_exact:
  assumes "no_exact_hit s name h"
  shows "(case map_of (file_hashes s) h of
              Some original_name \<Rightarrow>
                if original_name \<noteq> name
                then Some (ExactDuplicate (os_path_join e DOWNLOAD_DIR original_name) 1)
                else None
            | None \<Rightarrow> None) = None"
  using assms by (auto simp: no_exact_hit_def split: option.splits)

lemma cfad_name:
  assumes "no_exact_hit s name h" "find (similar_entry e name) (file_hashes s) = Some (eh, en)"
  shows "check_for_advanced_duplicates e s fp name h =
           (Some (NameSimilarDuplicate (os_path_join e DOWNLOAD_DIR en) (8 / 10)), s)"
  unfolding check_for_advanced_duplicates_def cfad_no_exact[OF assms(1)] using assms(2) by simp

lemma cfad_raise:
  assumes "no_exact_hit s name h" "find (similar_entry e name) (file_hashes s) = None"
    "find_all_similarities e (db s) fp = None"
  shows "check_for_advanced_duplicates e s fp name h = (None, s)"
  unfolding check_for_advanced_duplicates_def cfad_no_exact[OF assms(1)] using assms(2,3) by simp

lemma cfad_modality:
  assumes "no_exact_hit s name h" "find (similar_entry e name) (file_hashes s) = None"
    "find_all_similarities e (db s) fp = Some (d1, sims)"
    "first_similarity e sims = Some (ty, p, sc)"
  shows "check_for_advanced_duplicates e s fp name h =
           (Some (ModalitySimilarDuplicate ty p sc), s\<lparr>db := d1\<rparr>)"
  unfolding check_for_advanced_duplicates_def cfad_no_exact[OF assms(1)] using assms(2,3,4)
  by simp

lemma cfad_new:
  assumes "no_exact_hit s name h" "find (similar_entry e name) (file_hashes s) = None"
    "find_all_similarities e (db s) fp = Some (d1, sims)"
    "first_similarity e sims = None"
  shows "check_for_advanced_duplicates e s fp name h =
           (Some NewUnique, new_unique_state e s d1 fp name h)"
proof -
  have "store_fingerprints e d1 fp = Some d1"
    using find_all_similarities_SomeD(1)[OF assms(3)] by (rule store_fingerprints_idem)
  then show ?thesis
    unfolding check_for_advanced_duplicates_def cfad_no_exact[OF assms(1)] new_unique_state_def
    using assms(2,3,4) by (simp add: Let_def split: option.splits)
qed

lemma cfad_cases:
  obtains (exact) n where "map_of (file_hashes s) h = Some n" "n \<noteq> name"
  | (name) eh en where "no_exact_hit s name h"
      "find (similar_entry e name) (file_hashes s) = Some (eh, en)"
  | (raise) "no_exact_hit s name h" "find (similar_entry e name) (file_hashes s) = None"
      "find_all_similarities e (db s) fp = None"
  | (modality) d1 sims ty p sc where "no_exact_hit s name h"
      "find (similar_entry e name) (file_hashes s) = None"
      "find_all_similarities e (db s) fp = Some (d1, sims)"
      "first_similarity e sims = Some (ty, p, sc)"
  | (new) d1 sims where "no_exact_hit s name h"
      "find (similar_entry e name) (file_hashes s) = None"
      "find_all_similarities e (db s) fp = Some (d1, sims)"
      "first_similarity e sims = None"
proof (cases "no_exact_hit s name h")
  case False
  then show ?thesis using exact by (auto simp: no_exact_hit_def)
next
  case True
  note ne = True
  show ?thesis
  proof (cases "find (similar_entry e name) (file_hashes s)")
    case (Some a)
    then show ?thesis using ne name by (cases a) auto
  next
    case None
    note nn = None
    show ?thesis
    proof (cases "find_all_similarities e (db s) fp")
      case None
      then show ?thesis using ne nn raise by auto
    next
      case (Some a)
      obtain d1 sims where a: "a = (d1, sims)" by (cases a)
      show ?thesis
      proof (cases "first_similarity e sims")
        case None
        then show ?thesis using ne nn Some a new by auto
      next
        case (Some b)
        obtain ty p sc where "b = (ty, p, sc)" by (cases b)
        then show ?thesis using ne nn Some a \<open>find_all_similarities e (db s) fp = Some a\<close> modality
          by auto
      qed
    qed
  qed
qed



lemma no_exact_hit_update: "no_exact_hit (s\<lparr>file_hashes := AList.update h name fh\<rparr>) name h"
  by (simp add: no_exact_hit_def update_conv')

lemma new_unique_state_fields:
  "db (new_unique_state e s d1 fp name h) = d1"
  "file_hashes (new_unique_state e s d1 fp name h) = AList.update h name (file_hashes s)"
  "processing_files (new_unique_state e s d1 fp name h) = processing_files s"
  "file_modification_times (new_unique_state e s d1 fp name h) = file_modification_times s"
  "mod_db (new_unique_state e s d1 fp name h) =
     (case path_getmtime e fp of None \<Rightarrow> mod_db s
      | Some mtime \<Rightarrow> AList.update name (h, mtime) (mod_db s))"
  by (simp_all add: new_unique_state_def split: option.splits)




lemma sorted_by_score_top:
  assumes "(p, sc) \<in> set (sorted_by_score xs)"
  shows "sc \<le> snd (hd (sorted_by_score xs))"
proof -
  let ?l = "sorted_by_score xs"
  have srt: "sorted (map (\<lambda>x. - snd x) ?l)"
    unfolding sorted_by_score_def by (rule sorted_sort_key)
  from assms obtain a l where l: "?l = a # l" by (cases ?l) auto
  show ?thesis
  proof (cases "(p, sc) = a")
    case True
    then have "snd a = sc" by auto
    then show ?thesis by (simp add: l)
  next
    case False
    then have "(p, sc) \<in> set l" using assms l by simp
    then have "- snd a \<le> - snd (p, sc)" using srt unfolding l by auto
    then show ?thesis by (simp add: l)
  qed
qed

lemma sorted_by_score_idem: "sorted_by_score (sorted_by_score xs) = sorted_by_score xs"
  unfolding sorted_by_score_def by (simp add: sort_key_id_if_sorted)

lemma sorted_by_score_Nil: "sorted_by_score [] = []"
  by (simp add: sorted_by_score_def)

lemma finds_sorted:
  "find_similar_images e d fp = sorted_by_score (find_similar_images e d fp)"
  "find_similar_audio e d fp = sorted_by_score (find_similar_audio e d fp)"
  "find_similar_documents e d fp = sorted_by_score (find_similar_documents e d fp)"
  "find_similar_videos e d fp = sorted_by_score (find_similar_videos e d fp)"
  "find_fuzzy_similar e d fp = sorted_by_score (find_fuzzy_similar e d fp)"
  by (simp_all add: find_similar_images_def find_similar_audio_def find_similar_documents_def
      find_similar_videos_def find_fuzzy_similar_def sorted_by_score_idem sorted_by_score_Nil
      split: option.splits)

text \<open>
  Claim C1, as the code has it. The decision of \<^verbatim>\<open>check_for_advanced_duplicates\<close> follows
  a fixed priority. A stored content hash whose stored name differs from the name of the file
  gives ExactDuplicate with score 1 and that name as the original. Otherwise the first
  entry of the hash store, in store order, whose name differs from the name of the file and
  is similar to it gives NameSimilarDuplicate with score 0.8. Otherwise the fingerprints
  are stored and the modalities scanned, their results listed in the order image, audio,
  document, video, fuzzy, each list best score first; the first non-empty list gives
  ModalitySimilarDuplicate of its modality with its first, top-ranked candidate, and when
  all lists are empty the file is NewUnique. For a file that exists the pass reports
  exactly one of these four classifications.
\<close>

theorem decision_priority:
  "(map_of (file_hashes s) file_hash = Some n \<and> n \<noteq> file_name \<longrightarrow>
      check_for_advanced_duplicates e s file_path file_name file_hash =
        (Some (ExactDuplicate (os_path_join e DOWNLOAD_DIR n) 1), s))
   \<and> (no_exact_hit s file_name file_hash \<and>
       find (similar_entry e file_name) (file_hashes s) = Some (eh, en) \<longrightarrow>
      check_for_advanced_duplicates e s file_path file_name file_hash =
        (Some (NameSimilarDuplicate (os_path_join e DOWNLOAD_DIR en) (8 / 10)), s))
   \<and> (no_exact_hit s file_name file_hash \<and>
       find (similar_entry e file_name) (file_hashes s) = None \<and>
       find_all_similarities e (db s) file_path = Some (d1, sims) \<longrightarrow>
      subseq (map fst sims)
        [image_similarity, audio_similarity_type, document_similarity, video_similarity,
         fuzzy_similarity] \<and>
      (\<forall>(ty, l) \<in> set sims. \<forall>(p, sc) \<in> set l. sc \<le> snd (hd l)) \<and>
      fst (check_for_advanced_duplicates e s file_path file_name file_hash) =
        (case dropWhile (\<lambda>(ty, l). l = []) sims of
           [] \<Rightarrow> Some NewUnique
         | (ty, l) # _ \<Rightarrow> Some (ModalitySimilarDuplicate ty (fst (hd l)) (snd (hd l)))))
   \<and> (os_stat e file_path \<noteq> None \<longrightarrow>
      (\<exists>r. fst (check_for_advanced_duplicates e s file_path file_name file_hash) = Some r \<and>
           (\<forall>m. r \<noteq> FileModified m)))"
proof (intro conjI impI)
  assume "map_of (file_hashes s) file_hash = Some n \<and> n \<noteq> file_name"
  then show "check_for_advanced_duplicates e s file_path file_name file_hash =
        (Some (ExactDuplicate (os_path_join e DOWNLOAD_DIR n) 1), s)"
    by (intro cfad_exact) auto
next
  assume "no_exact_hit s file_name file_hash \<and>
       find (similar_entry e file_name) (file_hashes s) = Some (eh, en)"
  then show "check_for_advanced_duplicates e s file_path file_name file_hash =
        (Some (NameSimilarDuplicate (os_path_join e DOWNLOAD_DIR en) (8 / 10)), s)"
    by (intro cfad_name) auto
next
  assume a: "no_exact_hit s file_name file_hash \<and>
       find (similar_entry e file_name) (file_hashes s) = None \<and>
       find_all_similarities e (db s) file_path = Some (d1, sims)"
  then have fa: "find_all_similarities e (db s) file_path = Some (d1, sims)" by simp
  show "subseq (map fst sims)
        [image_similarity, audio_similarity_type, document_similarity, video_similarity,
         fuzzy_similarity]"
    unfolding find_all_similarities_SomeD(2)[OF fa] by simp
  show "\<forall>(ty, l) \<in> set sims. \<forall>(p, sc) \<in> set l. sc \<le> snd (hd l)"
  proof (clarify)
    fix ty l p sc assume m: "(ty, l) \<in> set sims" "(p, sc) \<in> set l"
    have "l = sorted_by_score l"
      using find_all_similarities_entries[OF fa m(1)] finds_sorted[of e d1 file_path]
      by (cases ty) simp_all
    then show "sc \<le> snd (hd l)" using sorted_by_score_top[of p sc l] m(2) by simp
  qed
  show "fst (check_for_advanced_duplicates e s file_path file_name file_hash) =
        (case dropWhile (\<lambda>(ty, l). l = []) sims of
           [] \<Rightarrow> Some NewUnique
         | (ty, l) # _ \<Rightarrow> Some (ModalitySimilarDuplicate ty (fst (hd l)) (snd (hd l))))"
  proof (cases "first_similarity e sims")
    case None
    have "dropWhile (\<lambda>(ty, l). l = []) sims = []"
      using None first_similarity_top[OF find_all_similarities_good[OF fa]]
      by (auto split: list.splits)
    moreover have "fst (check_for_advanced_duplicates e s file_path file_name file_hash)
        = Some NewUnique"
      using cfad_new[of s file_name file_hash e file_path d1 sims] a None by simp
    ultimately show ?thesis by (simp only: list.case)
  next
    case (Some b)
    obtain ty p sc where b: "b = (ty, p, sc)" by (cases b)
    from Some first_similarity_top[OF find_all_similarities_good[OF fa]]
    obtain l rest where "dropWhile (\<lambda>(ty, l). l = []) sims = (ty, l) # rest" "hd l = (p, sc)"
      unfolding b by (auto split: list.splits)
    moreover have "fst (check_for_advanced_duplicates e s file_path file_name file_hash)
        = Some (ModalitySimilarDuplicate ty p sc)"
      using cfad_modality[of s file_name file_hash e file_path d1 sims ty p sc] a Some b by simp
    ultimately show ?thesis by (simp only: list.case prod.case fst_conv snd_conv)
  qed
next
  assume st: "os_stat e file_path \<noteq> None"
  have nr: "find_all_similarities e (db s) file_path \<noteq> None"
    using st by (auto simp: find_all_similarities_def store_fingerprints_def Let_def
        split: option.splits)
  show "\<exists>r. fst (check_for_advanced_duplicates e s file_path file_name file_hash) = Some r \<and>
           (\<forall>m. r \<noteq> FileModified m)"
  proof (cases rule: cfad_cases[where s = s and h = file_hash and name = file_name and e = e
        and fp = file_path])
    case (exact n)
    show ?thesis unfolding cfad_exact[OF exact] by simp
  next
    case (name eh en)
    show ?thesis unfolding cfad_name[OF name] by simp
  next
    case raise
    then show ?thesis using nr by simp
  next
    case (modality d1 sims ty p sc)
    show ?thesis unfolding cfad_modality[OF modality] by simp
  next
    case (new d1 sims)
    show ?thesis unfolding cfad_new[OF new] by simp
  qed
qed

lemma store_fingerprints_others:
  "store_fingerprints e d fp = Some d' \<Longrightarrow> others_unchanged fp d d'"
  unfolding others_unchanged_def by (simp add: store_fingerprints_frame)

lemma others_unchanged_refl: "others_unchanged fp d d"
  by (simp add: others_unchanged_def)

lemma ext_disjoint:
  "x \<in> set AUDIO_EXTENSIONS \<Longrightarrow> x \<notin> set IMAGE_EXTENSIONS"
  "x \<in> set DOCUMENT_EXTENSIONS \<Longrightarrow> x \<notin> set IMAGE_EXTENSIONS"
  "x \<in> set DOCUMENT_EXTENSIONS \<Longrightarrow> x \<notin> set AUDIO_EXTENSIONS"
  "x \<in> set VIDEO_EXTENSIONS \<Longrightarrow> x \<notin> set IMAGE_EXTENSIONS"
  "x \<in> set VIDEO_EXTENSIONS \<Longrightarrow> x \<notin> set AUDIO_EXTENSIONS"
  "x \<in> set VIDEO_EXTENSIONS \<Longrightarrow> x \<notin> set DOCUMENT_EXTENSIONS"
  by (auto simp: IMAGE_EXTENSIONS_def AUDIO_EXTENSIONS_def DOCUMENT_EXTENSIONS_def
      VIDEO_EXTENSIONS_def)

lemma store_modality_tables:
  "image_hashes (store_modality e d fp x n t) =
     (case (if x \<in> set IMAGE_EXTENSIONS then calculate_image_hashes e fp else None) of
        Some hashes \<Rightarrow> insert_or_replace fp (hashes, n, t) (image_hashes d)
      | None \<Rightarrow> image_hashes d)"
  "audio_fingerprints (store_modality e d fp x n t) =
     (case (if x \<in> set AUDIO_EXTENSIONS then calculate_audio_fingerprint e fp else None) of
        Some fingerprint \<Rightarrow> insert_or_replace fp (fingerprint, n, t) (audio_fingerprints d)
      | None \<Rightarrow> audio_fingerprints d)"
  "document_content (store_modality e d fp x n t) =
     (case (if x \<in> set DOCUMENT_EXTENSIONS then extract_document_content e fp else None) of
        Some content \<Rightarrow>
          if content \<noteq> [] then
            insert_or_replace fp
              (\<lparr> content_hash = md5_hexdigest e content, text_content = content,
                  doc_word_count = word_count content \<rparr>, n, t)
              (document_content d)
          else document_content d
      | None \<Rightarrow> document_content d)"
  "video_thumbnails (store_modality e d fp x n t) =
     (case (if x \<in> set VIDEO_EXTENSIONS then calculate_video_thumbnail_hash e fp else None) of
        Some video_data \<Rightarrow> insert_or_replace fp (video_data, n, t) (video_thumbnails d)
      | None \<Rightarrow> video_thumbnails d)"
  using ext_disjoint[of x]
  by (auto simp: store_modality_def split: option.splits)

lemma store_fuzzy_table:
  "fuzzy_hashes (store_fuzzy e d fp x n t) =
     (case (if x \<in> set SUPPORTED_FILE_TYPES then calculate_fuzzy_hash e fp else None) of
        Some fuzzy_hash \<Rightarrow>
          if fuzzy_hash \<noteq> [] then insert_or_replace fp (fuzzy_hash, n, t) (fuzzy_hashes d)
          else fuzzy_hashes d
      | None \<Rightarrow> fuzzy_hashes d)"
  by (simp add: store_fuzzy_def split: option.splits)

lemma store_fingerprints_rows:
  assumes "cursor d" "os_stat e fp = Some st"
  shows "\<exists>d1. store_fingerprints e d fp = Some d1 \<and> fingerprints_stored e fp st d d1"
  using assms
  unfolding store_fingerprints_def fingerprints_stored_def Let_def
  by (simp add: store_fuzzy_frame store_modality_frame store_modality_tables store_fuzzy_table
      cong: option.case_cong if_cong)

lemma store_fingerprints_closed:
  "\<not> cursor d \<Longrightarrow> store_fingerprints e d fp = Some d"
  by (simp add: store_fingerprints_def)

lemma store_fingerprints_stat:
  "cursor d \<Longrightarrow> store_fingerprints e d fp = Some d1 \<Longrightarrow> \<exists>st. os_stat e fp = Some st"
  by (auto simp: store_fingerprints_def split: option.splits)

lemma own_insert:
  "length (filter (\<lambda>r. fst r = k) (insert_or_replace k v t)) = 1"
  by (simp add: insert_or_replace_def)

lemma own_rows_after:
  assumes fs: "fingerprints_stored e fp st d d1"
    and sims: "sims =
       (if file_ext_of fp \<in> set IMAGE_EXTENSIONS
        then [(image_similarity, find_similar_images e d1 fp)] else []) @
       (if file_ext_of fp \<in> set AUDIO_EXTENSIONS
        then [(audio_similarity_type, find_similar_audio e d1 fp)] else []) @
       (if file_ext_of fp \<in> set DOCUMENT_EXTENSIONS
        then [(document_similarity, find_similar_documents e d1 fp)] else []) @
       (if file_ext_of fp \<in> set VIDEO_EXTENSIONS
        then [(video_similarity, find_similar_videos e d1 fp)] else []) @
       (if file_ext_of fp \<in> set SUPPORTED_FILE_TYPES
        then [(fuzzy_similarity, find_fuzzy_similar e d1 fp)] else [])"
    and l: "(ty, l) \<in> set sims" and m: "(p, sc) \<in> set l"
  shows "own_rows ty fp d1 = 1"
proof (cases ty)
  case image_similarity
  with l sims have x: "file_ext_of fp \<in> set IMAGE_EXTENSIONS" "l = find_similar_images e d1 fp"
    by (auto split: if_splits)
  from m x(2) have "(p, sc) \<in> set (find_similar_images e d1 fp)" by simp
  then obtain h where "calculate_image_hashes e fp = Some h"
    unfolding find_similar_images_iff by blast
  with fs x(1) show ?thesis using image_similarity
    by (simp add: fingerprints_stored_def Let_def own_insert)
next
  case audio_similarity_type
  with l sims have x: "file_ext_of fp \<in> set AUDIO_EXTENSIONS" "l = find_similar_audio e d1 fp"
    by (auto split: if_splits)
  from m x(2) have "(p, sc) \<in> set (find_similar_audio e d1 fp)" by simp
  then obtain h where "calculate_audio_fingerprint e fp = Some h"
    unfolding find_similar_audio_iff by blast
  with fs x(1) show ?thesis using audio_similarity_type
    by (simp add: fingerprints_stored_def Let_def own_insert)
next
  case document_similarity
  with l sims have x: "file_ext_of fp \<in> set DOCUMENT_EXTENSIONS"
      "l = find_similar_documents e d1 fp"
    by (auto split: if_splits)
  from m x(2) have "(p, sc) \<in> set (find_similar_documents e d1 fp)" by simp
  then obtain c where "extract_document_content e fp = Some c" "100 \<le> length (strip c)"
    unfolding find_similar_documents_iff by blast
  moreover from this have "c \<noteq> []" by (auto simp: strip_def)
  ultimately show ?thesis using fs x(1) document_similarity
    by (simp add: fingerprints_stored_def Let_def own_insert)
next
  case video_similarity
  with l sims have x: "file_ext_of fp \<in> set VIDEO_EXTENSIONS" "l = find_similar_videos e d1 fp"
    by (auto split: if_splits)
  from m x(2) have "(p, sc) \<in> set (find_similar_videos e d1 fp)" by simp
  then obtain h where "calculate_video_thumbnail_hash e fp = Some h"
    unfolding find_similar_videos_iff by blast
  with fs x(1) show ?thesis using video_similarity
    by (simp add: fingerprints_stored_def Let_def own_insert)
next
  case fuzzy_similarity
  with l sims have x: "file_ext_of fp \<in> set SUPPORTED_FILE_TYPES" "l = find_fuzzy_similar e d1 fp"
    by (auto split: if_splits)
  from m x(2) have "(p, sc) \<in> set (find_fuzzy_similar e d1 fp)" by simp
  then obtain h where "calculate_fuzzy_hash e fp = Some h" "h \<noteq> []"
    unfolding find_fuzzy_similar_iff by blast
  with fs x(1) show ?thesis using fuzzy_similarity
    by (simp add: fingerprints_stored_def Let_def own_insert)
qed

lemma scan_cursor:
  assumes sims: "sims =
       (if file_ext_of fp \<in> set IMAGE_EXTENSIONS
        then [(image_similarity, find_similar_images e d1 fp)] else []) @
       (if file_ext_of fp \<in> set AUDIO_EXTENSIONS
        then [(audio_similarity_type, find_similar_audio e d1 fp)] else []) @
       (if file_ext_of fp \<in> set DOCUMENT_EXTENSIONS
        then [(document_similarity, find_similar_documents e d1 fp)] else []) @
       (if file_ext_of fp \<in> set VIDEO_EXTENSIONS
        then [(video_similarity, find_similar_videos e d1 fp)] else []) @
       (if file_ext_of fp \<in> set SUPPORTED_FILE_TYPES
        then [(fuzzy_similarity, find_fuzzy_similar e d1 fp)] else [])"
    and l: "(ty, l) \<in> set sims" and m: "(p, sc) \<in> set l"
  shows "cursor d1"
  using l m unfolding sims
  by (auto split: if_splits simp: find_similar_images_iff find_similar_audio_iff
      find_similar_documents_iff find_similar_videos_iff find_fuzzy_similar_iff)

text \<open>
  Claim C4, as the code has it. A pass that reports ExactDuplicate or NameSimilarDuplicate
  leaves the whole state unchanged. A pass that reports ModalitySimilarDuplicate leaves the
  hash store and the modification database unchanged, but it has written the fingerprint
  database: the connection is open, the file has a status, the database is the one
  \<^verbatim>\<open>store_fingerprints\<close> produced before the scan, in which every table whose extractor
  yields a fingerprint has had the row of the file deleted and the fresh row appended, and
  the table of the modality reported holds exactly one row of the file. A pass that
  reports NewUnique has recorded the file in the hash store and the modification database;
  when the connection is open it has written the same rows, and when the connection is not
  open the fingerprint database is unchanged. No pass changes the fingerprint rows of
  another path.
\<close>

theorem store_effects:
  "(fst (check_for_advanced_duplicates e s file_path file_name file_hash)
       \<in> {Some (ExactDuplicate orig sc), Some (NameSimilarDuplicate orig sc)}
     \<longrightarrow> snd (check_for_advanced_duplicates e s file_path file_name file_hash) = s)
   \<and> (fst (check_for_advanced_duplicates e s file_path file_name file_hash)
         = Some (ModalitySimilarDuplicate ty orig sc)
     \<longrightarrow> cursor (db s) \<and>
         (\<exists>d1 st. os_stat e file_path = Some st \<and>
               store_fingerprints e (db s) file_path = Some d1 \<and>
               fingerprints_stored e file_path st (db s) d1 \<and>
               own_rows ty file_path d1 = 1 \<and>
               snd (check_for_advanced_duplicates e s file_path file_name file_hash)
                 = s\<lparr>db := d1\<rparr>))
   \<and> (fst (check_for_advanced_duplicates e s file_path file_name file_hash) = Some NewUnique
     \<longrightarrow> (\<exists>d1. store_fingerprints e (db s) file_path = Some d1 \<and>
               (if cursor (db s)
                then \<exists>st. os_stat e file_path = Some st \<and>
                          fingerprints_stored e file_path st (db s) d1
                else d1 = db s) \<and>
               snd (check_for_advanced_duplicates e s file_path file_name file_hash)
                 = new_unique_state e s d1 file_path file_name file_hash))
   \<and> others_unchanged file_path (db s)
         (db (snd (check_for_advanced_duplicates e s file_path file_name file_hash)))"
proof (cases rule: cfad_cases[where s = s and h = file_hash and name = file_name and e = e
        and fp = file_path])
  case (exact n)
  show ?thesis unfolding cfad_exact[OF exact] by (simp add: others_unchanged_refl)
next
  case (name eh en)
  show ?thesis unfolding cfad_name[OF name] by (simp add: others_unchanged_refl)
next
  case raise
  show ?thesis unfolding cfad_raise[OF raise] by (simp add: others_unchanged_refl)
next
  case (modality d1 sims ty' p sc')
  note st = find_all_similarities_SomeD[OF modality(3)]
  from first_similarity_in[OF modality(4)] obtain l where
    l: "(ty', l) \<in> set sims" "(p, sc') \<in> set l" by blast
  have c1: "cursor d1" by (rule scan_cursor[OF st(2) l])
  then have c: "cursor (db s)" using store_fingerprints_frame(1)[OF st(1)] by simp
  from store_fingerprints_stat[OF c st(1)] obtain sr where sr: "os_stat e file_path = Some sr" ..
  from store_fingerprints_rows[OF c sr] st(1)
  have fs: "fingerprints_stored e file_path sr (db s) d1" by auto
  have o: "own_rows ty' file_path d1 = 1" by (rule own_rows_after[OF fs st(2) l])
  show ?thesis unfolding cfad_modality[OF modality]
    using st(1) store_fingerprints_others[OF st(1)] c sr fs o by auto
next
  case (new d1 sims)
  note st = find_all_similarities_SomeD(1)[OF new(3)]
  have "if cursor (db s)
        then \<exists>st. os_stat e file_path = Some st \<and> fingerprints_stored e file_path st (db s) d1
        else d1 = db s"
  proof (cases "cursor (db s)")
    case True
    from store_fingerprints_stat[OF True st] obtain sr where sr: "os_stat e file_path = Some sr" ..
    from store_fingerprints_rows[OF True sr] st show ?thesis using True sr by auto
  next
    case False
    then show ?thesis using st store_fingerprints_closed[of "db s" e file_path] by simp
  qed
  then show ?thesis unfolding cfad_new[OF new]
    using st store_fingerprints_others[OF st] by (simp add: new_unique_state_fields)
qed












text \<open>
  Claim C9. Two filenames whose extensions differ after lower-casing are never similar,
  whatever their base names; and when a pass reports NameSimilarDuplicate, the original it
  names is a stored name with the extension of the file, compared in lower case.
\<close>

theorem name_similarity_needs_same_extension:
  "(lower (snd (splitext file1)) \<noteq> lower (snd (splitext file2)) \<longrightarrow>
      \<not> is_similar_filename e file1 file2)
   \<and> (fst (check_for_advanced_duplicates e s file_path file_name file_hash)
         = Some (NameSimilarDuplicate orig sc) \<longrightarrow>
      (\<exists>existing_hash existing_name. (existing_hash, existing_name) \<in> set (file_hashes s) \<and>
          orig = os_path_join e DOWNLOAD_DIR existing_name \<and>
          lower (snd (splitext file_name)) = lower (snd (splitext existing_name))))"
proof (intro conjI impI)
  assume "lower (snd (splitext file1)) \<noteq> lower (snd (splitext file2))"
  then show "\<not> is_similar_filename e file1 file2" by (rule is_similar_filename_ext)
next
  assume a: "fst (check_for_advanced_duplicates e s file_path file_name file_hash)
         = Some (NameSimilarDuplicate orig sc)"
  show "\<exists>existing_hash existing_name. (existing_hash, existing_name) \<in> set (file_hashes s) \<and>
          orig = os_path_join e DOWNLOAD_DIR existing_name \<and>
          lower (snd (splitext file_name)) = lower (snd (splitext existing_name))"
  proof (cases rule: cfad_cases[where s = s and h = file_hash and name = file_name and e = e
        and fp = file_path])
    case (exact n)
    then show ?thesis using a cfad_exact[OF exact, of e file_path] by simp
  next
    case (name eh en)
    from name(2) have "(eh, en) \<in> set (file_hashes s)" "similar_entry e file_name (eh, en)"
      by (auto simp: find_Some_iff)
    moreover from this have "lower (snd (splitext file_name)) = lower (snd (splitext en))"
      using is_similar_filename_ext[of file_name en e] by (auto simp: similar_entry_def)
    ultimately show ?thesis using a cfad_name[OF name, of file_path] by auto
  next
    case raise
    then show ?thesis using a cfad_raise[OF raise] by simp
  next
    case (modality d1 sims ty p sc)
    then show ?thesis using a cfad_modality[OF modality] by simp
  next
    case (new d1 sims)
    then show ?thesis using a cfad_new[OF new] by simp
  qed
qed

text \<open>
  Claim C7, as the code has it. When the text extracted from the querying file has fewer
  than 100 characters (or no text can be extracted), the document scan returns no candidate
  for it, whatever the store holds, and the pass never reports a document similarity for
  it. The restriction is on the querying file only.
\<close>

theorem short_document_query:
  "(extract_document_content e file_path = Some content \<and> length (strip content) < 100 \<longrightarrow>
      find_similar_documents e d file_path = [] \<and>
      (\<forall>orig sc. fst (check_for_advanced_duplicates e s file_path file_name file_hash)
          \<noteq> Some (ModalitySimilarDuplicate document_similarity orig sc)))
   \<and> (extract_document_content e file_path = None \<longrightarrow> find_similar_documents e d file_path = [])"
proof (intro conjI impI allI)
  assume "extract_document_content e file_path = None"
  then show "find_similar_documents e d file_path = []"
    by (simp add: find_similar_documents_def)
next
  assume a: "extract_document_content e file_path = Some content \<and> length (strip content) < 100"
  then show "find_similar_documents e d file_path = []"
    by (simp add: find_similar_documents_def)
next
  fix orig sc
  assume a: "extract_document_content e file_path = Some content \<and> length (strip content) < 100"
  then have nil: "find_similar_documents e d' file_path = []" for d'
    by (simp add: find_similar_documents_def)
  show "fst (check_for_advanced_duplicates e s file_path file_name file_hash)
          \<noteq> Some (ModalitySimilarDuplicate document_similarity orig sc)"
  proof (cases rule: cfad_cases[where s = s and h = file_hash and name = file_name and e = e
        and fp = file_path])
    case (exact n)
    then show ?thesis using cfad_exact[OF exact, of e file_path] by simp
  next
    case (name eh en)
    then show ?thesis using cfad_name[OF name, of file_path] by simp
  next
    case raise
    then show ?thesis using cfad_raise[OF raise] by simp
  next
    case (modality d1 sims ty p sc')
    from first_similarity_in[OF modality(4)] obtain l where l: "(ty, l) \<in> set sims" "(p, sc') \<in> set l"
      by blast
    have "ty \<noteq> document_similarity"
    proof
      assume "ty = document_similarity"
      with find_all_similarities_entries[OF modality(3) l(1)] nil l(2) show False by simp
    qed
    then show ?thesis using cfad_modality[OF modality] by simp
  next
    case (new d1 sims)
    then show ?thesis using cfad_new[OF new] by simp
  qed
qed

section \<open>What the scans return\<close>

lemma find_exclude:
  "(p, sc) \<in> set (find_similar_images e d fp) \<Longrightarrow> p \<noteq> fp \<and> path_exists e p \<and> p \<in> fst ` set (image_hashes d)"
  "(p, sc) \<in> set (find_similar_audio e d fp) \<Longrightarrow> p \<noteq> fp \<and> path_exists e p \<and> p \<in> fst ` set (audio_fingerprints d)"
  "(p, sc) \<in> set (find_similar_documents e d fp) \<Longrightarrow> p \<noteq> fp \<and> path_exists e p \<and> p \<in> fst ` set (document_content d)"
  "(p, sc) \<in> set (find_similar_videos e d fp) \<Longrightarrow> p \<noteq> fp \<and> path_exists e p \<and> p \<in> fst ` set (video_thumbnails d)"
  "(p, sc) \<in> set (find_fuzzy_similar e d fp) \<Longrightarrow> p \<noteq> fp \<and> path_exists e p \<and> p \<in> fst ` set (fuzzy_hashes d)"
  unfolding find_similar_images_iff find_similar_audio_iff find_similar_documents_iff
    find_similar_videos_iff find_fuzzy_similar_iff
  by force+

text \<open>
  Claim C8. Every candidate returned by any of the five scans has a path other than the
  path of the querying file and exists on disk; the same holds for every list that
  \<^verbatim>\<open>find_all_similarities\<close> returns, and the rows of all other paths, those of missing
  files included, are in the database afterwards exactly as before.
\<close>

theorem scans_exclude_self_and_dead:
  "(\<forall>(p, sc) \<in> set (find_similar_images e d file_path) \<union> set (find_similar_audio e d file_path) \<union>
        set (find_similar_documents e d file_path) \<union> set (find_similar_videos e d file_path) \<union>
        set (find_fuzzy_similar e d file_path).
      p \<noteq> file_path \<and> path_exists e p)
   \<and> (find_all_similarities e d file_path = Some (d', sims) \<longrightarrow>
        (\<forall>(ty, l) \<in> set sims. \<forall>(p, sc) \<in> set l. p \<noteq> file_path \<and> path_exists e p) \<and>
        others_unchanged file_path d d')"
proof (intro conjI impI)
  show "\<forall>(p, sc) \<in> set (find_similar_images e d file_path) \<union> set (find_similar_audio e d file_path) \<union>
        set (find_similar_documents e d file_path) \<union> set (find_similar_videos e d file_path) \<union>
        set (find_fuzzy_similar e d file_path).
      p \<noteq> file_path \<and> path_exists e p"
    using find_exclude[of _ _ e d file_path] by blast
next
  assume a: "find_all_similarities e d file_path = Some (d', sims)"
  have "p \<noteq> file_path \<and> path_exists e p" if m: "(ty, l) \<in> set sims" "(p, sc) \<in> set l"
    for ty l p sc
    using find_all_similarities_entries[OF a m(1)] m(2) find_exclude[of p sc e d' file_path]
    by (cases ty) simp_all
  then show "\<forall>(ty, l) \<in> set sims. \<forall>(p, sc) \<in> set l. p \<noteq> file_path \<and> path_exists e p"
    by blast
  show "others_unchanged file_path d d'"
    using find_all_similarities_SomeD(1)[OF a] by (rule store_fingerprints_others)
qed

text \<open>
  Claim C5. The image scan returns a path with a score exactly when a stored row of another,
  existing path has a perceptual hash at Hamming distance at most 10 from that of the file,
  and the score is 1 minus the distance over 64; the video scan does the same on thumbnail
  hashes with the same bound. The distance is the number of the 64 bit positions where the
  two hashes differ.
\<close>

theorem image_video_threshold:
  "((p, sc) \<in> set (find_similar_images e d file_path) \<longleftrightarrow>
      cursor d \<and>
      (\<exists>h stored sz mt. calculate_image_hashes e file_path = Some h \<and>
         (p, stored, sz, mt) \<in> set (image_hashes d) \<and> p \<noteq> file_path \<and> path_exists e p \<and>
         hamming (perceptual_hash h) (perceptual_hash stored) \<le> 10 \<and>
         sc = 1 - real (hamming (perceptual_hash h) (perceptual_hash stored)) / 64))
   \<and> ((p, sc) \<in> set (find_similar_videos e d file_path) \<longleftrightarrow>
      cursor d \<and>
      (\<exists>h stored sz mt. calculate_video_thumbnail_hash e file_path = Some h \<and>
         (p, stored, sz, mt) \<in> set (video_thumbnails d) \<and> p \<noteq> file_path \<and> path_exists e p \<and>
         hamming (thumbnail_hash h) (thumbnail_hash stored) \<le> 10 \<and>
         sc = 1 - real (hamming (thumbnail_hash h) (thumbnail_hash stored)) / 64))
   \<and> hamming a b = card {i. i < 64 \<and> bit a i \<noteq> bit b i}"
  using find_similar_images_iff[of p sc e d file_path] find_similar_videos_iff[of p sc e d file_path]
    hamming_card[of a b]
  by (intro conjI) assumption+

lemma audio_similarity_iff:
  "audio_similarity e current stored = Some v \<longleftrightarrow>
     length (spectral_centroid current) = length (spectral_centroid stored) \<and>
     length (mfcc_features current) = length (mfcc_features stored) \<and>
     v = float32_divide e
           (float32_add e
              (float32_divide e
                 (np_dot e (spectral_centroid current) (spectral_centroid stored))
                 (float32_multiply e (np_linalg_norm e (spectral_centroid current))
                    (np_linalg_norm e (spectral_centroid stored))))
              (float32_divide e
                 (np_dot e (mfcc_features current) (mfcc_features stored))
                 (float32_multiply e (np_linalg_norm e (mfcc_features current))
                    (np_linalg_norm e (mfcc_features stored)))))
           (Finite 2)"
  by (auto simp: audio_similarity_def cosine_def Let_def)

lemma float_ge_iff: "float_ge x t \<longleftrightarrow> x = PosInf \<or> (\<exists>r. x = Finite r \<and> t \<le> r)"
  by (cases x) (simp_all add: float_ge_def)

text \<open>
  Claim C6, as the code has it. The audio scan returns a path with a score exactly when a
  stored row of another, existing path is compared with the file and the similarity
  computed compares greater than or equal to 0.85; the score is that similarity. The
  comparison is made only when the two spectral-centroid vectors have one length and the
  two MFCC vectors have one length. The similarity is the mean of two quotients, each the
  dot product of a pair of vectors over the product of their norms: one for the
  spectral-centroid vectors and one for the MFCC vectors, every operation being the
  single-precision one of numpy. A similarity compares greater than or equal to the
  threshold when it is positive infinity or a finite number at least the threshold, so
  that a similarity that is not a number never qualifies.
\<close>

theorem audio_mean_of_cosines:
  "((p, sc) \<in> set (find_similar_audio e d file_path) \<longleftrightarrow>
      cursor d \<and>
      (\<exists>current stored sz mt. calculate_audio_fingerprint e file_path = Some current \<and>
         (p, stored, sz, mt) \<in> set (audio_fingerprints d) \<and> p \<noteq> file_path \<and> path_exists e p \<and>
         (\<exists>similarity. audio_similarity e current stored = Some similarity \<and>
            float_ge similarity (85 / 100) \<and> sc = float_of similarity)))
   \<and> (audio_similarity e current stored = Some v \<longleftrightarrow>
      length (spectral_centroid current) = length (spectral_centroid stored) \<and>
      length (mfcc_features current) = length (mfcc_features stored) \<and>
      v = float32_divide e
            (float32_add e
               (float32_divide e
                  (np_dot e (spectral_centroid current) (spectral_centroid stored))
                  (float32_multiply e (np_linalg_norm e (spectral_centroid current))
                     (np_linalg_norm e (spectral_centroid stored))))
               (float32_divide e
                  (np_dot e (mfcc_features current) (mfcc_features stored))
                  (float32_multiply e (np_linalg_norm e (mfcc_features current))
                     (np_linalg_norm e (mfcc_features stored)))))
            (Finite 2))
   \<and> (float_ge x t \<longleftrightarrow> x = PosInf \<or> (\<exists>r. x = Finite r \<and> t \<le> r))"
  using find_similar_audio_iff[of p sc e d file_path] audio_similarity_iff[of e current stored v]
    float_ge_iff[of x t]
  by (intro conjI) assumption+


section \<open>Examples\<close>

lemmas string_eval = splitext_def Let_def lower_def lower_char_def upper_chars_def lower_chars_def strip_def is_space_def
  in_downloads_def ascii_join_def DOWNLOAD_DIR_def file_ext_of_def upt_rec ascii_basename_def

lemma in_downloads_inject [simp]: "in_downloads a = in_downloads b \<longleftrightarrow> a = b"
  by (simp add: in_downloads_def ascii_join_def)

lemma ext_zip: "file_ext_of zip_path = ''.zip''"
  by (simp add: zip_path_def string_eval)


lemma ext_png: "file_ext_of new_png = ''.png''"
  by (simp add: new_png_def string_eval)

lemma ext_mp3: "file_ext_of new_mp3 = ''.mp3''"
  by (simp add: new_mp3_def string_eval)

lemma ext_txt: "file_ext_of long_txt = ''.txt''" "file_ext_of short_txt = ''.txt''"
  by (simp_all add: long_txt_def short_txt_def string_eval)

lemma hamming_6: "hamming 0x3F 0 = 6"
  by (simp add: hamming_def upt_rec bit_numeral_simps)

lemma hamming_11: "hamming 0x3F 0x7C0 = 11"
  by (simp add: hamming_def upt_rec bit_numeral_simps)

lemma hamming_0: "hamming 0x3F 0x3F = 0"
  by (simp add: hamming_def)

lemmas env_eval = base_env_def regular_file_def path_exists_def path_isfile_def
  path_getsize_def path_getmtime_def


lemma zip_store: "store_fingerprints zip_env d zip_path = Some d"
  by (simp add: store_fingerprints_def store_modality_def store_fuzzy_def zip_env_def env_eval
      ext_zip calculate_fuzzy_hash_def SUPPORTED_FILE_TYPES_def IMAGE_EXTENSIONS_def
      AUDIO_EXTENSIONS_def VIDEO_EXTENSIONS_def DOCUMENT_EXTENSIONS_def Let_def)

lemma zip_find_all:
  "find_all_similarities zip_env d zip_path = Some (d, [(fuzzy_similarity, [])])"
  by (simp add: find_all_similarities_def zip_store ext_zip SUPPORTED_FILE_TYPES_def
      IMAGE_EXTENSIONS_def AUDIO_EXTENSIONS_def VIDEO_EXTENSIONS_def DOCUMENT_EXTENSIONS_def
      find_fuzzy_similar_def)
     (simp add: zip_env_def base_env_def)

lemma zip_mtime: "path_getmtime zip_env zip_path = Some 1"
  by (simp add: zip_env_def env_eval)


text \<open>
  Against claim C1 as stated: the hash of \<^verbatim>\<open>a.zip\<close> is stored, under the name
  \<^verbatim>\<open>a.zip\<close> itself, and the file is classified NewUnique, not ExactDuplicate.
\<close>

theorem exact_match_own_name_counterexample:
  "map_of (file_hashes zip_known) ''h1'' = Some ''a.zip'' \<and>
   check_for_advanced_duplicates zip_env zip_known zip_path ''a.zip'' ''h1'' =
     (Some NewUnique, zip_known\<lparr>mod_db := [(''a.zip'', ''h1'', 1)]\<rparr>)"
proof -
  have "check_for_advanced_duplicates zip_env zip_known zip_path ''a.zip'' ''h1'' =
      (Some NewUnique, new_unique_state zip_env zip_known (db zip_known) zip_path ''a.zip'' ''h1'')"
    by (rule cfad_new[where sims = "[(fuzzy_similarity, [])]"])
       (simp_all add: no_exact_hit_def zip_known_def similar_entry_def zip_find_all)
  then show ?thesis
    by (simp add: new_unique_state_def zip_mtime) (simp add: zip_known_def empty_state_def)
qed




lemmas ext_sets = SUPPORTED_FILE_TYPES_def IMAGE_EXTENSIONS_def AUDIO_EXTENSIONS_def
  VIDEO_EXTENSIONS_def DOCUMENT_EXTENSIONS_def

lemmas png_paths = new_png_def live_png_def dead_png_def far_png_def

lemma image_exists:
  "path_exists image_env new_png" "path_exists image_env live_png"
  "path_exists image_env far_png" "\<not> path_exists image_env dead_png"
  by (simp_all add: image_env_def env_eval png_paths)

lemma png_distinct:
  "dead_png \<noteq> new_png" "live_png \<noteq> new_png" "far_png \<noteq> new_png"
  "new_png \<noteq> dead_png" "new_png \<noteq> live_png" "new_png \<noteq> far_png"
  by (simp_all add: png_paths)

lemma image_hash_new: "calculate_image_hashes image_env new_png = Some (image_of 0x3F)"
  by (simp add: calculate_image_hashes_def image_env_def base_env_def)

lemma image_stat_new: "os_stat image_env new_png = Some (regular_file 2048 1)"
  by (simp add: image_env_def base_env_def)

lemma image_store: "store_fingerprints image_env image_db new_png = Some image_db_after"
  by (simp add: store_fingerprints_def store_modality_def store_fuzzy_def ext_png ext_sets Let_def
      image_hash_new calculate_fuzzy_hash_def insert_or_replace_def image_db_def image_db_after_def
      empty_db_def png_distinct image_stat_new)
     (simp add: image_env_def base_env_def regular_file_def)

lemma image_find_after:
  "find_similar_images image_env image_db_after new_png = [(live_png, 29 / 32)]"
  by (simp add: find_similar_images_def image_hash_new image_db_after_def empty_db_def
      select_others_def image_exists sorted_by_score_def image_of_def hamming_6 hamming_11
      hamming_0 THRESHOLD_image_hash_def png_distinct)
     (simp add: image_env_def base_env_def)

lemma image_find_before:
  "find_similar_images image_env image_db new_png = [(live_png, 29 / 32)]"
  by (simp add: find_similar_images_def image_hash_new image_db_def empty_db_def
      select_others_def image_exists sorted_by_score_def image_of_def hamming_6 hamming_11
      hamming_0 THRESHOLD_image_hash_def png_distinct)
     (simp add: image_env_def base_env_def)

lemma image_find_all:
  "find_all_similarities image_env image_db new_png =
     Some (image_db_after, [(image_similarity, [(live_png, 29 / 32)]), (fuzzy_similarity, [])])"
  by (simp add: find_all_similarities_def image_store ext_png ext_sets image_find_after
      find_fuzzy_similar_def)
     (simp add: image_env_def base_env_def)

lemma png_not_similar: "\<not> is_similar_filename image_env ''new.png'' ''live.png''"
  by (simp add: is_similar_filename_def splitext_def Let_def lower_def lower_char_def upper_chars_def lower_chars_def strip_def
      is_space_def clean_name_def duplicate_patterns_def lits_def image_env_def base_env_def
      is_digit_def upt_rec)

lemma image_pass:
  "check_for_advanced_duplicates image_env image_state new_png ''new.png'' ''h9'' =
     (Some (ModalitySimilarDuplicate image_similarity live_png (29 / 32)),
      image_state\<lparr>db := image_db_after\<rparr>)"
proof (rule cfad_modality)
  show "no_exact_hit image_state ''new.png'' ''h9''"
    by (simp add: no_exact_hit_def image_state_def)
  show "find (similar_entry image_env ''new.png'') (file_hashes image_state) = None"
    by (simp add: image_state_def similar_entry_def png_not_similar)
  show "find_all_similarities image_env (db image_state) new_png =
     Some (image_db_after, [(image_similarity, [(live_png, 29 / 32)]), (fuzzy_similarity, [])])"
    by (simp add: image_state_def image_find_all)
  show "first_similarity image_env
      [(image_similarity, [(live_png, 29 / 32)]), (fuzzy_similarity, [])] =
      Some (image_similarity, live_png, 29 / 32)"
    by (simp add: image_exists)
qed

lemma image_db_changed: "image_db_after \<noteq> image_db"
proof
  assume "image_db_after = image_db"
  then have "length (image_hashes image_db_after) = length (image_hashes image_db)" by simp
  then show False by (simp add: image_db_after_def image_db_def)
qed

text \<open>
  Against claim C4 as stated: \<^verbatim>\<open>new.png\<close> is classified as an image-similar duplicate
  of \<^verbatim>\<open>live.png\<close>, and the pass has added its row to the fingerprint database.
\<close>

theorem similar_duplicate_is_stored_counterexample:
  "fst (check_for_advanced_duplicates image_env image_state new_png ''new.png'' ''h9'')
     = Some (ModalitySimilarDuplicate image_similarity live_png (29 / 32)) \<and>
   db image_state = image_db \<and>
   db (snd (check_for_advanced_duplicates image_env image_state new_png ''new.png'' ''h9''))
     = image_db_after \<and>
   image_db_after \<noteq> image_db"
  by (simp add: image_pass image_db_changed) (simp add: image_state_def)

lemma zip_exact:
  "check_for_advanced_duplicates zip_env zip_known b_zip ''b.zip'' ''h1'' =
     (Some (ExactDuplicate (ascii_join DOWNLOAD_DIR ''a.zip'') 1), zip_known)"
proof -
  have "check_for_advanced_duplicates zip_env zip_known b_zip ''b.zip'' ''h1'' =
     (Some (ExactDuplicate (os_path_join zip_env DOWNLOAD_DIR ''a.zip'') 1), zip_known)"
    by (rule cfad_exact) (simp_all add: zip_known_def)
  then show ?thesis by (simp add: zip_env_def base_env_def)
qed

lemma zip_new:
  "check_for_advanced_duplicates zip_env zip_known zip_path ''a.zip'' ''h1'' =
     (Some NewUnique, new_unique_state zip_env zip_known (db zip_known) zip_path ''a.zip'' ''h1'')"
  by (rule cfad_new[where sims = "[(fuzzy_similarity, [])]"])
     (simp_all add: no_exact_hit_def zip_known_def similar_entry_def zip_find_all)

lemma zip_closed_new:
  "check_for_advanced_duplicates zip_env zip_closed zip_path ''a.zip'' ''h1'' =
     (Some NewUnique, new_unique_state zip_env zip_closed (db zip_closed) zip_path ''a.zip'' ''h1'')"
  by (rule cfad_new[where sims = "[(fuzzy_similarity, [])]"])
     (simp_all add: no_exact_hit_def zip_known_def zip_closed_def similar_entry_def zip_find_all)

lemma image_store_empty:
  "store_fingerprints image_env empty_db new_png =
     Some (empty_db\<lparr>image_hashes := [(new_png, image_of 0x3F, 2048, 1)]\<rparr>)"
  by (simp add: store_fingerprints_def store_modality_def store_fuzzy_def ext_png ext_sets Let_def
      image_hash_new calculate_fuzzy_hash_def insert_or_replace_def empty_db_def image_stat_new)
     (simp add: image_env_def base_env_def regular_file_def)

lemma image_find_all_empty:
  "find_all_similarities image_env empty_db new_png =
     Some (empty_db\<lparr>image_hashes := [(new_png, image_of 0x3F, 2048, 1)]\<rparr>,
           [(image_similarity, []), (fuzzy_similarity, [])])"
  by (simp add: find_all_similarities_def image_store_empty ext_png ext_sets find_fuzzy_similar_def
      find_similar_images_def image_hash_new select_others_def sorted_by_score_def)
     (simp add: image_env_def base_env_def empty_db_def)

lemma image_new_pass:
  "fst (check_for_advanced_duplicates image_env empty_state new_png ''new.png'' ''h9'') =
     Some NewUnique"
proof -
  have "check_for_advanced_duplicates image_env empty_state new_png ''new.png'' ''h9'' =
     (Some NewUnique,
      new_unique_state image_env empty_state
        (empty_db\<lparr>image_hashes := [(new_png, image_of 0x3F, 2048, 1)]\<rparr>) new_png ''new.png'' ''h9'')"
    by (rule cfad_new[where sims = "[(image_similarity, []), (fuzzy_similarity, [])]"])
       (simp_all add: no_exact_hit_def empty_state_def image_find_all_empty)
  then show ?thesis by simp
qed

text \<open>
  The theorem of claim C4 on an exact duplicate, on a similar image, whose row is appended
  to the image table, on a new image in an empty database, and on a new file when the
  connection is not open.
\<close>

theorem store_effects_witness:
  "snd (check_for_advanced_duplicates zip_env zip_known b_zip ''b.zip'' ''h1'') = zip_known
   \<and> (own_rows image_similarity new_png (db image_state) = 0 \<and>
      own_rows image_similarity new_png
        (db (snd (check_for_advanced_duplicates image_env image_state new_png ''new.png'' ''h9'')))
        = 1 \<and>
      image_hashes
        (db (snd (check_for_advanced_duplicates image_env image_state new_png ''new.png'' ''h9'')))
        = image_hashes (db image_state) @ [(new_png, image_of 0x3F, 2048, 1)] \<and>
      file_hashes (snd (check_for_advanced_duplicates image_env image_state new_png ''new.png'' ''h9''))
        = file_hashes image_state)
   \<and> (image_hashes
        (db (snd (check_for_advanced_duplicates image_env empty_state new_png ''new.png'' ''h9'')))
        = [(new_png, image_of 0x3F, 2048, 1)] \<and>
      file_hashes (snd (check_for_advanced_duplicates image_env empty_state new_png ''new.png'' ''h9''))
        = [(''h9'', ''new.png'')])
   \<and> db (snd (check_for_advanced_duplicates zip_env zip_closed zip_path ''a.zip'' ''h1'')) = closed_db
   \<and> others_unchanged new_png (db image_state)
        (db (snd (check_for_advanced_duplicates image_env image_state new_png ''new.png'' ''h9'')))"
proof (intro conjI)
  show "snd (check_for_advanced_duplicates zip_env zip_known b_zip ''b.zip'' ''h1'') = zip_known"
    using store_effects[of zip_env zip_known b_zip "''b.zip''" "''h1''"
        "ascii_join DOWNLOAD_DIR ''a.zip''" 1, THEN conjunct1]
    by (simp add: zip_exact)
  show "own_rows image_similarity new_png (db image_state) = 0"
    by (simp add: image_state_def image_db_def empty_db_def png_distinct)
  let ?R = "check_for_advanced_duplicates image_env image_state new_png ''new.png'' ''h9''"
  from store_effects[of image_env image_state new_png "''new.png''" "''h9''" _ "29 / 32"
        image_similarity, THEN conjunct2, THEN conjunct1, of live_png]
  obtain d1 st where m: "os_stat image_env new_png = Some st"
    "fingerprints_stored image_env new_png st (db image_state) d1"
    "own_rows image_similarity new_png d1 = 1" "snd ?R = image_state\<lparr>db := d1\<rparr>"
    by (auto simp: image_pass)
  show "own_rows image_similarity new_png (db (snd ?R)) = 1"
    using m(3,4) by simp
  from m(1) have st: "st = regular_file 2048 1" by (simp add: image_stat_new)
  show "image_hashes (db (snd ?R)) = image_hashes (db image_state) @ [(new_png, image_of 0x3F, 2048, 1)]"
    using m(2,4) unfolding st fingerprints_stored_def
    by (simp add: Let_def ext_png ext_sets image_hash_new insert_or_replace_def image_state_def
        image_db_def empty_db_def png_distinct regular_file_def)
  show "file_hashes (snd ?R) = file_hashes image_state"
    using m(4) by simp
  let ?N = "check_for_advanced_duplicates image_env empty_state new_png ''new.png'' ''h9''"
  have ce: "cursor (db empty_state)" by (simp add: empty_state_def empty_db_def)
  from store_effects[of image_env empty_state new_png "''new.png''" "''h9''",
        THEN conjunct2, THEN conjunct2, THEN conjunct1] image_new_pass ce
  obtain d2 st2 where n: "os_stat image_env new_png = Some st2"
    "fingerprints_stored image_env new_png st2 (db empty_state) d2"
    "snd ?N = new_unique_state image_env empty_state d2 new_png ''new.png'' ''h9''"
    by auto
  from n(1) have st2: "st2 = regular_file 2048 1" by (simp add: image_stat_new)
  show "image_hashes (db (snd ?N)) = [(new_png, image_of 0x3F, 2048, 1)]"
    using n(2,3) unfolding st2 fingerprints_stored_def
    by (simp add: Let_def ext_png ext_sets image_hash_new insert_or_replace_def empty_state_def
        empty_db_def regular_file_def new_unique_state_fields)
  show "file_hashes (snd ?N) = [(''h9'', ''new.png'')]"
    using n(3) by (simp add: new_unique_state_fields empty_state_def)
  show "db (snd (check_for_advanced_duplicates zip_env zip_closed zip_path ''a.zip'' ''h1'')) = closed_db"
  proof -
    have cc: "\<not> cursor (db zip_closed)" "db zip_closed = closed_db"
      by (simp_all add: zip_closed_def closed_db_def empty_db_def)
    from store_effects[of zip_env zip_closed zip_path "''a.zip''" "''h1''",
        THEN conjunct2, THEN conjunct2, THEN conjunct1] cc
    show ?thesis by (auto simp: zip_closed_new new_unique_state_fields)
  qed
  show "others_unchanged new_png (db image_state) (db (snd ?R))"
    using store_effects[of image_env image_state new_png "''new.png''" "''h9''",
        THEN conjunct2, THEN conjunct2, THEN conjunct2]
    by simp
qed

lemma report_similar: "is_similar_filename zip_env ''report (1).pdf'' ''report.pdf''"
  by (simp add: is_similar_filename_def splitext_def Let_def lower_def lower_char_def upper_chars_def lower_chars_def strip_def
      is_space_def clean_name_def duplicate_patterns_def lits_def zip_env_def base_env_def
      is_digit_def upt_rec)

lemma report_find:
  "find (similar_entry zip_env ''report (1).pdf'') (file_hashes report_known)
     = Some (''h1'', ''report.pdf'')"
  by (simp add: report_known_def similar_entry_def report_similar)

lemma report_no_exact: "no_exact_hit report_known ''report (1).pdf'' ''h2''"
  by (simp add: no_exact_hit_def report_known_def)

lemma report_pass:
  "check_for_advanced_duplicates zip_env report_known fp ''report (1).pdf'' ''h2'' =
     (Some (NameSimilarDuplicate (ascii_join DOWNLOAD_DIR ''report.pdf'') (8 / 10)), report_known)"
  using cfad_name[OF report_no_exact report_find, of fp] by (simp add: zip_env_def base_env_def)

text \<open>The theorem of claim C9 on \<^verbatim>\<open>report.pdf\<close>, \<^verbatim>\<open>report.txt\<close> and \<^verbatim>\<open>report (1).pdf\<close>.\<close>

theorem name_similarity_needs_same_extension_witness:
  "\<not> is_similar_filename zip_env ''report.pdf'' ''report.txt''
   \<and> (\<exists>existing_hash existing_name.
         (existing_hash, existing_name) \<in> set (file_hashes report_known) \<and>
         ascii_join DOWNLOAD_DIR ''report.pdf'' = os_path_join zip_env DOWNLOAD_DIR existing_name \<and>
         lower (snd (splitext ''report (1).pdf'')) = lower (snd (splitext existing_name)))"
proof
  have "lower (snd (splitext ''report.pdf'')) \<noteq> lower (snd (splitext ''report.txt''))"
    by (simp add: splitext_def Let_def lower_def lower_char_def upper_chars_def lower_chars_def upt_rec)
  then show "\<not> is_similar_filename zip_env ''report.pdf'' ''report.txt''"
    using name_similarity_needs_same_extension[of "''report.pdf''" "''report.txt''" zip_env,
        THEN conjunct1] by blast
next
  have "fst (check_for_advanced_duplicates zip_env report_known (in_downloads ''report (1).pdf'')
          ''report (1).pdf'' ''h2'')
        = Some (NameSimilarDuplicate (ascii_join DOWNLOAD_DIR ''report.pdf'') (8 / 10))"
    by (simp add: report_pass)
  then show "\<exists>existing_hash existing_name.
         (existing_hash, existing_name) \<in> set (file_hashes report_known) \<and>
         ascii_join DOWNLOAD_DIR ''report.pdf'' = os_path_join zip_env DOWNLOAD_DIR existing_name \<and>
         lower (snd (splitext ''report (1).pdf'')) = lower (snd (splitext existing_name))"
    using name_similarity_needs_same_extension[of _ _ zip_env report_known
        "in_downloads ''report (1).pdf''" "''report (1).pdf''" "''h2''"
        "ascii_join DOWNLOAD_DIR ''report.pdf''" "8 / 10", THEN conjunct2]
    by blast
qed

text \<open>The theorem of claim C1 on one file for each of the four classifications.\<close>

theorem decision_priority_witness:
  "check_for_advanced_duplicates zip_env zip_known b_zip ''b.zip'' ''h1'' =
     (Some (ExactDuplicate (os_path_join zip_env DOWNLOAD_DIR ''a.zip'') 1), zip_known)
   \<and> check_for_advanced_duplicates zip_env report_known (in_downloads ''report (1).pdf'')
        ''report (1).pdf'' ''h2'' =
     (Some (NameSimilarDuplicate (os_path_join zip_env DOWNLOAD_DIR ''report.pdf'') (8 / 10)),
      report_known)
   \<and> fst (check_for_advanced_duplicates image_env image_state new_png ''new.png'' ''h9'') =
       Some (ModalitySimilarDuplicate image_similarity live_png (29 / 32))
   \<and> fst (check_for_advanced_duplicates zip_env empty_state zip_path ''a.zip'' ''h1'') =
       Some NewUnique
   \<and> (\<exists>r. fst (check_for_advanced_duplicates zip_env zip_known zip_path ''a.zip'' ''h1'') = Some r \<and>
          (\<forall>m. r \<noteq> FileModified m))"
proof (intro conjI)
  have "map_of (file_hashes zip_known) ''h1'' = Some ''a.zip'' \<and> ''a.zip'' \<noteq> ''b.zip''"
    by (simp add: zip_known_def)
  then show "check_for_advanced_duplicates zip_env zip_known b_zip ''b.zip'' ''h1'' =
     (Some (ExactDuplicate (os_path_join zip_env DOWNLOAD_DIR ''a.zip'') 1), zip_known)"
    using decision_priority[of zip_known "''h1''" "''a.zip''" "''b.zip''" zip_env b_zip,
        THEN conjunct1] by blast
next
  show "check_for_advanced_duplicates zip_env report_known (in_downloads ''report (1).pdf'')
        ''report (1).pdf'' ''h2'' =
     (Some (NameSimilarDuplicate (os_path_join zip_env DOWNLOAD_DIR ''report.pdf'') (8 / 10)),
      report_known)"
    using decision_priority[of report_known "''h2''" _ "''report (1).pdf''" zip_env
        "in_downloads ''report (1).pdf''" "''h1''" "''report.pdf''",
        THEN conjunct2, THEN conjunct1] report_no_exact report_find by blast
next
  have h: "no_exact_hit image_state ''new.png'' ''h9'' \<and>
       find (similar_entry image_env ''new.png'') (file_hashes image_state) = None \<and>
       find_all_similarities image_env (db image_state) new_png =
         Some (image_db_after, [(image_similarity, [(live_png, 29 / 32)]), (fuzzy_similarity, [])])"
    by (simp add: no_exact_hit_def image_state_def similar_entry_def png_not_similar image_find_all)
  from decision_priority[of image_state "''h9''" _ "''new.png''" image_env new_png _ _
      image_db_after "[(image_similarity, [(live_png, 29 / 32)]), (fuzzy_similarity, [])]",
      THEN conjunct2, THEN conjunct2, THEN conjunct1, rule_format, OF h]
  show "fst (check_for_advanced_duplicates image_env image_state new_png ''new.png'' ''h9'') =
       Some (ModalitySimilarDuplicate image_similarity live_png (29 / 32))"
    by simp
next
  have h: "no_exact_hit empty_state ''a.zip'' ''h1'' \<and>
       find (similar_entry zip_env ''a.zip'') (file_hashes empty_state) = None \<and>
       find_all_similarities zip_env (db empty_state) zip_path =
         Some (db empty_state, [(fuzzy_similarity, [])])"
    by (simp add: no_exact_hit_def empty_state_def zip_find_all)
  from decision_priority[of empty_state "''h1''" _ "''a.zip''" zip_env zip_path _ _
      "db empty_state" "[(fuzzy_similarity, [])]",
      THEN conjunct2, THEN conjunct2, THEN conjunct1, rule_format, OF h]
  show "fst (check_for_advanced_duplicates zip_env empty_state zip_path ''a.zip'' ''h1'') =
       Some NewUnique"
    by simp
next
  have "os_stat zip_env zip_path \<noteq> None" by (simp add: zip_env_def base_env_def)
  then show "\<exists>r. fst (check_for_advanced_duplicates zip_env zip_known zip_path ''a.zip'' ''h1'') = Some r \<and>
          (\<forall>m. r \<noteq> FileModified m)"
    using decision_priority[of zip_known "''h1''" _ "''a.zip''" zip_env zip_path,
        THEN conjunct2, THEN conjunct2, THEN conjunct2] by blast
qed

text \<open>The theorem of claim C5 at distance 6 (a match with score 29/32) and at distance 11.\<close>

lemma video_facts:
  "calculate_video_thumbnail_hash video_env new_mp4 =
     Some \<lparr> thumbnail_hash = 0x3F, video_duration = 10, resolution = (640, 480) \<rparr>"
  "path_exists video_env old_mp4" "old_mp4 \<noteq> new_mp4"
  by (simp_all add: calculate_video_thumbnail_hash_def video_env_def env_eval new_mp4_def
      old_mp4_def)

theorem image_video_threshold_witness:
  "(live_png, 29 / 32) \<in> set (find_similar_images image_env image_db new_png)
   \<and> (far_png, 53 / 64) \<notin> set (find_similar_images image_env image_db new_png)
   \<and> hamming 0x3F 0x7C0 = card {i. i < 64 \<and> bit (0x3F :: 64 word) i \<noteq> bit (0x7C0 :: 64 word) i}
   \<and> (old_mp4, 29 / 32) \<in> set (find_similar_videos video_env video_db new_mp4)"
proof (intro conjI)
  have "cursor video_db \<and>
      (\<exists>h stored sz mt. calculate_video_thumbnail_hash video_env new_mp4 = Some h \<and>
         (old_mp4, stored, sz, mt) \<in> set (video_thumbnails video_db) \<and> old_mp4 \<noteq> new_mp4 \<and>
         path_exists video_env old_mp4 \<and>
         hamming (thumbnail_hash h) (thumbnail_hash stored) \<le> 10 \<and>
         29 / 32 = 1 - real (hamming (thumbnail_hash h) (thumbnail_hash stored)) / 64)"
    apply (rule conjI)
     apply (simp add: video_db_def empty_db_def)
    apply (rule exI[of _ "\<lparr> thumbnail_hash = 0x3F, video_duration = 10, resolution = (640, 480) \<rparr>"],
        rule exI[of _ "\<lparr> thumbnail_hash = 0, video_duration = 10, resolution = (640, 480) \<rparr>"],
        rule exI[of _ 2048], rule exI[of _ 1])
    apply (simp add: video_facts video_db_def empty_db_def hamming_6)
    done
  then show "(old_mp4, 29 / 32) \<in> set (find_similar_videos video_env video_db new_mp4)"
    using image_video_threshold[of old_mp4 "29 / 32" video_env video_db new_mp4,
        THEN conjunct2, THEN conjunct1] by blast
next
  have "cursor image_db \<and>
      (\<exists>h stored sz mt. calculate_image_hashes image_env new_png = Some h \<and>
         (live_png, stored, sz, mt) \<in> set (image_hashes image_db) \<and> live_png \<noteq> new_png \<and>
         path_exists image_env live_png \<and>
         hamming (perceptual_hash h) (perceptual_hash stored) \<le> 10 \<and>
         29 / 32 = 1 - real (hamming (perceptual_hash h) (perceptual_hash stored)) / 64)"
    apply (rule conjI)
     apply (simp add: image_db_def empty_db_def)
    apply (rule exI[of _ "image_of 0x3F"], rule exI[of _ "image_of 0"], rule exI[of _ 4096],
        rule exI[of _ 1])
    apply (simp add: image_hash_new image_exists png_distinct image_db_def empty_db_def
        image_of_def hamming_6)
    done
  then show "(live_png, 29 / 32) \<in> set (find_similar_images image_env image_db new_png)"
    using image_video_threshold[of live_png "29 / 32" image_env image_db new_png,
        THEN conjunct1] by blast
next
  show "(far_png, 53 / 64) \<notin> set (find_similar_images image_env image_db new_png)"
  proof
    assume "(far_png, 53 / 64) \<in> set (find_similar_images image_env image_db new_png)"
    with image_video_threshold[of far_png "53 / 64" image_env image_db new_png, THEN conjunct1]
    obtain h stored sz mt where
      h: "calculate_image_hashes image_env new_png = Some h"
      and r: "(far_png, stored, sz, mt) \<in> set (image_hashes image_db)"
      and d: "hamming (perceptual_hash h) (perceptual_hash stored) \<le> 10"
      by blast
    from h have "h = image_of 0x3F" by (simp add: image_hash_new)
    moreover from r have "stored = image_of 0x7C0"
      by (auto simp: image_db_def empty_db_def png_paths)
    ultimately show False using d by (simp add: image_of_def hamming_11)
  qed
next
  show "hamming 0x3F 0x7C0 = card {i. i < 64 \<and> bit (0x3F :: 64 word) i \<noteq> bit (0x7C0 :: 64 word) i}"
    using image_video_threshold[of _ _ _ _ _ "0x3F" "0x7C0"] by blast
qed

text \<open>
  The theorem of claim C8: \<^verbatim>\<open>dead.png\<close> has the very hash of the new file and is not
  returned, the file is not matched with its own row, and the row of \<^verbatim>\<open>dead.png\<close> is
  still stored after the pass.
\<close>

theorem scans_exclude_self_and_dead_witness:
  "(dead_png, 1) \<notin> set (find_similar_images image_env image_db new_png)
   \<and> (new_png, 1) \<notin> set (find_similar_images image_env image_db_after new_png)
   \<and> others_unchanged new_png image_db image_db_after
   \<and> (dead_png, image_of 0x3F, 4096, 1) \<in> set (image_hashes image_db_after)"
proof (intro conjI)
  show "(dead_png, 1) \<notin> set (find_similar_images image_env image_db new_png)"
    using scans_exclude_self_and_dead[of image_env image_db new_png, THEN conjunct1]
      image_exists(4) by blast
  show "(new_png, 1) \<notin> set (find_similar_images image_env image_db_after new_png)"
    using scans_exclude_self_and_dead[of image_env image_db_after new_png, THEN conjunct1]
    by blast
  show "others_unchanged new_png image_db image_db_after"
    using scans_exclude_self_and_dead[of image_env image_db new_png image_db_after
        "[(image_similarity, [(live_png, 29 / 32)]), (fuzzy_similarity, [])]", THEN conjunct2]
      image_find_all by blast
  show "(dead_png, image_of 0x3F, 4096, 1) \<in> set (image_hashes image_db_after)"
    by (simp add: image_db_after_def empty_db_def)
qed

lemma finite_values_map: "finite_values (map Finite xs) = Some xs"
  by (induction xs) simp_all

lemma exact_dot_map:
  "exact_dot (map Finite xs) (map Finite ys) = Finite (sum_list (map2 (*) xs ys))"
  by (simp add: exact_dot_def finite_values_map)

lemma exact_norm_map:
  "exact_norm (map Finite xs) = Finite (sqrt (sum_list (map (\<lambda>x. x * x) xs)))"
  by (simp add: exact_norm_def finite_values_map)

lemma audio_env_ops:
  "np_dot audio_env = exact_dot" "np_linalg_norm audio_env = exact_norm"
  "float32_multiply audio_env = exact_multiply" "float32_divide audio_env = exact_divide"
  "float32_add audio_env = exact_add"
  by (simp_all add: audio_env_def base_env_def)

lemma cosine_examples:
  "cosine audio_env (map Finite [3]) (map Finite [3]) = Finite 1"
  "cosine audio_env (map Finite [1, 0]) (map Finite [0, 1]) = Finite 0"
  "cosine audio_env (map Finite [1, 0]) (map Finite [1, 0]) = Finite 1"
  unfolding cosine_def audio_env_ops exact_dot_map exact_norm_map
  by (simp_all add: exact_multiply_def exact_divide_def)

lemma cosine_similarity_examples:
  "cosine_similarity [3, 1, 0] [3, 0, 1] = 9 / 10"
  "cosine_similarity [3] [3] = 1"
  "cosine_similarity [1, 0] [0, 1] = 0"
  by (simp_all add: cosine_similarity_def)

lemma audio_paths_distinct:
  "old_mp3 \<noteq> new_mp3" "same_mp3 \<noteq> new_mp3"
  by (simp_all add: old_mp3_def new_mp3_def same_mp3_def)

lemma audio_exists: "path_exists audio_env old_mp3" "path_exists audio_env same_mp3"
  by (simp_all add: audio_env_def env_eval old_mp3_def new_mp3_def same_mp3_def)

lemma audio_new: "calculate_audio_fingerprint audio_env new_mp3 = Some (audio_of [3] [1, 0])"
  by (simp add: calculate_audio_fingerprint_def audio_env_def base_env_def)

lemma audio_of_sel:
  "spectral_centroid (audio_of c m) = map Finite c" "mfcc_features (audio_of c m) = map Finite m"
  by (simp_all add: audio_of_def)

lemma audio_sim_old:
  "audio_similarity audio_env (audio_of [3] [1, 0]) (audio_of [3] [0, 1]) = Some (Finite (1 / 2))"
  unfolding audio_similarity_def audio_of_sel Let_def cosine_examples
  by (simp add: audio_env_ops exact_add_def exact_divide_def)

lemma audio_sim_same:
  "audio_similarity audio_env (audio_of [3] [1, 0]) (audio_of [3] [1, 0]) = Some (Finite 1)"
  unfolding audio_similarity_def audio_of_sel Let_def cosine_examples
  by (simp add: audio_env_ops exact_add_def exact_divide_def)

text \<open>
  Against claim C6 as stated. The new file has the spectral centroid \<open>[3]\<close> and the MFCC
  vector \<open>[1, 0]\<close>, the stored file \<open>[3]\<close> and \<open>[0, 1]\<close>; every operation of the
  comparison is exact in single precision on these numbers. The cosine similarity of the
  feature vectors is 0.9 when the two vectors of a file are taken as one and 1 on the
  spectral centroids, both at least 0.85, and 0 on the MFCC vectors; the similarity the
  code computes is 0.5, and the stored file is not returned.
\<close>

theorem audio_single_cosine_counterexample:
  "cosine_similarity ([3] @ [1, 0]) ([3] @ [0, 1]) = 9 / 10
   \<and> cosine_similarity [3] [3] = 1
   \<and> cosine_similarity [1, 0] [0, 1] = 0
   \<and> calculate_audio_fingerprint audio_env new_mp3 = Some (audio_of [3] [1, 0])
   \<and> audio_similarity audio_env (audio_of [3] [1, 0]) (audio_of [3] [0, 1])
       = Some (Finite (1 / 2))
   \<and> find_similar_audio audio_env (audio_db [(old_mp3, audio_of [3] [0, 1])]) new_mp3 = []"
proof -
  have "find_similar_audio audio_env (audio_db [(old_mp3, audio_of [3] [0, 1])]) new_mp3 = []"
    by (simp add: find_similar_audio_def audio_new audio_db_def empty_db_def select_others_def
        audio_paths_distinct audio_exists audio_sim_old THRESHOLD_audio_similarity_def
        sorted_by_score_def float_ge_def)
  then show ?thesis
    using cosine_similarity_examples by (simp add: audio_sim_old audio_new)
qed

text \<open>The theorem of claim C6 on a stored copy of the new file and on the file above.\<close>

theorem audio_mean_of_cosines_witness:
  "(same_mp3, 1) \<in> set (find_similar_audio audio_env
        (audio_db [(old_mp3, audio_of [3] [0, 1]), (same_mp3, audio_of [3] [1, 0])]) new_mp3)
   \<and> (old_mp3, 1 / 2) \<notin> set (find_similar_audio audio_env
        (audio_db [(old_mp3, audio_of [3] [0, 1]), (same_mp3, audio_of [3] [1, 0])]) new_mp3)
   \<and> audio_similarity audio_env (audio_of [3] [1, 0]) (audio_of [3] [0, 1])
       = Some (Finite (1 / 2))
   \<and> audio_similarity audio_env (audio_of [3] [1, 0]) (audio_of [3] [0, 1, 0]) = None
   \<and> \<not> float_ge (Finite (1 / 2)) (85 / 100) \<and> float_ge (Finite 1) (85 / 100)
   \<and> \<not> float_ge NaN (85 / 100)"
proof (intro conjI)
  show "audio_similarity audio_env (audio_of [3] [1, 0]) (audio_of [3] [0, 1])
       = Some (Finite (1 / 2))"
    using audio_mean_of_cosines[of _ _ audio_env _ _ "audio_of [3] [1, 0]" "audio_of [3] [0, 1]"
        "Finite (1 / 2)", THEN conjunct2, THEN conjunct1]
    by (simp add: audio_of_sel audio_env_ops exact_dot_map[of "[3]" "[3]", simplified]
        exact_dot_map[of "[1, 0]" "[0, 1]", simplified] exact_norm_map[of "[3]", simplified]
        exact_norm_map[of "[1, 0]", simplified] exact_norm_map[of "[0, 1]", simplified]
        exact_multiply_def exact_divide_def exact_add_def)
  show "audio_similarity audio_env (audio_of [3] [1, 0]) (audio_of [3] [0, 1, 0]) = None"
  proof (cases "audio_similarity audio_env (audio_of [3] [1, 0]) (audio_of [3] [0, 1, 0])")
    case None
    then show ?thesis .
  next
    case (Some a)
    with audio_mean_of_cosines[of _ _ audio_env _ _ "audio_of [3] [1, 0]"
        "audio_of [3] [0, 1, 0]" a, THEN conjunct2, THEN conjunct1]
    show ?thesis by (simp add: audio_of_sel)
  qed
  show "\<not> float_ge (Finite (1 / 2)) (85 / 100)"
    using audio_mean_of_cosines[of _ _ _ _ _ _ _ _ "Finite (1 / 2)" "85 / 100",
        THEN conjunct2, THEN conjunct2] by simp
  show "float_ge (Finite 1) (85 / 100)"
    using audio_mean_of_cosines[of _ _ _ _ _ _ _ _ "Finite 1" "85 / 100",
        THEN conjunct2, THEN conjunct2] by simp
  show "\<not> float_ge NaN (85 / 100)"
    using audio_mean_of_cosines[of _ _ _ _ _ _ _ _ NaN "85 / 100",
        THEN conjunct2, THEN conjunct2] by simp
next
  let ?d = "audio_db [(old_mp3, audio_of [3] [0, 1]), (same_mp3, audio_of [3] [1, 0])]"
  have "cursor ?d \<and>
      (\<exists>current stored sz mt. calculate_audio_fingerprint audio_env new_mp3 = Some current \<and>
         (same_mp3, stored, sz, mt) \<in> set (audio_fingerprints ?d) \<and> same_mp3 \<noteq> new_mp3 \<and>
         path_exists audio_env same_mp3 \<and>
         (\<exists>similarity. audio_similarity audio_env current stored = Some similarity \<and>
            float_ge similarity (85 / 100) \<and> 1 = float_of similarity))"
    apply (rule conjI)
     apply (simp add: audio_db_def empty_db_def)
    apply (rule exI[of _ "audio_of [3] [1, 0]"], rule exI[of _ "audio_of [3] [1, 0]"],
        rule exI[of _ 2048], rule exI[of _ 1])
    apply (simp add: audio_new audio_db_def empty_db_def audio_paths_distinct audio_exists
        audio_sim_same float_ge_def float_of_def)
    done
  then show "(same_mp3, 1) \<in> set (find_similar_audio audio_env ?d new_mp3)"
    using audio_mean_of_cosines[of same_mp3 1 audio_env ?d new_mp3, THEN conjunct1] by blast
next
  let ?d = "audio_db [(old_mp3, audio_of [3] [0, 1]), (same_mp3, audio_of [3] [1, 0])]"
  show "(old_mp3, 1 / 2) \<notin> set (find_similar_audio audio_env ?d new_mp3)"
  proof
    assume "(old_mp3, 1 / 2) \<in> set (find_similar_audio audio_env ?d new_mp3)"
    with audio_mean_of_cosines[of old_mp3 "1 / 2" audio_env ?d new_mp3, THEN conjunct1]
    obtain current stored sz mt similarity where
      c: "calculate_audio_fingerprint audio_env new_mp3 = Some current"
      and r: "(old_mp3, stored, sz, mt) \<in> set (audio_fingerprints ?d)"
      and a: "audio_similarity audio_env current stored = Some similarity"
      and g: "float_ge similarity (85 / 100)"
      by blast
    from c have "current = audio_of [3] [1, 0]" by (simp add: audio_new)
    moreover from r have "stored = audio_of [3] [0, 1]"
      by (auto simp: audio_db_def empty_db_def old_mp3_def same_mp3_def in_downloads_def
          ascii_join_def)
    ultimately have "similarity = Finite (1 / 2)" using a by (simp add: audio_sim_old)
    with g show False by (simp add: float_ge_def)
  qed
qed

lemma not_space_a: "\<not> is_space (CHR ''a'')"
  by (simp add: is_space_def)

lemma strip_replicate_a: "strip (replicate n (CHR ''a'')) = replicate n (CHR ''a'')"
  by (simp add: strip_def not_space_a dropWhile_replicate)

lemma count_words_inside: "count_words True (replicate n (CHR ''a'')) = 0"
  by (induction n) (simp_all add: not_space_a)

lemma word_count_a: "word_count (replicate (Suc n) (CHR ''a'')) = 1"
  by (simp add: word_count_def not_space_a count_words_inside)

lemma doc_paths: "short_txt \<noteq> long_txt" "long_txt \<noteq> short_txt"
  by (simp_all add: short_txt_def long_txt_def)

lemma doc_exists: "path_exists doc_env short_txt" "path_exists doc_env long_txt"
  by (simp_all add: doc_env_def env_eval doc_paths)

lemma doc_extract:
  "extract_document_content doc_env long_txt = Some (replicate 100 (CHR ''a''))"
  "extract_document_content doc_env short_txt = Some (replicate 99 (CHR ''a''))"
  by (simp_all add: extract_document_content_def ext_txt doc_env_def base_env_def doc_paths
      strip_replicate_a)

lemma doc_ratio:
  "SequenceMatcher_ratio doc_env (replicate 100 (CHR ''a'')) (replicate 99 (CHR ''a'')) = 198 / 199"
  by (simp add: doc_env_def base_env_def prefix_ratio_def)

lemma doc_store: "store_fingerprints doc_env empty_db short_txt = Some doc_db"
proof -
  have s: "os_stat doc_env short_txt = Some (regular_file 2048 1)"
    by (simp add: doc_env_def base_env_def doc_paths)
  have w: "word_count (replicate 99 (CHR ''a'')) = 1"
    using word_count_a[of 98] by simp
  have m: "md5_hexdigest doc_env x = []" for x
    by (simp add: doc_env_def base_env_def)
  have f: "calculate_fuzzy_hash doc_env short_txt = None"
    by (simp add: calculate_fuzzy_hash_def doc_env_def base_env_def)
  show ?thesis
    by (simp add: store_fingerprints_def store_modality_def store_fuzzy_def s ext_txt ext_sets
        Let_def doc_extract w m f insert_or_replace_def doc_db_def short_row_def empty_db_def
        regular_file_def)
qed

text \<open>
  Against claim C7 as stated: \<^verbatim>\<open>short.txt\<close>, of 99 characters, is stored; the scan for
  \<^verbatim>\<open>long.txt\<close> then returns it as a qualifying candidate.
\<close>

theorem short_stored_document_counterexample:
  "store_fingerprints doc_env empty_db short_txt = Some doc_db
   \<and> extract_document_content doc_env short_txt = Some (replicate 99 (CHR ''a''))
   \<and> length (replicate 99 (CHR ''a'')) < 100
   \<and> find_similar_documents doc_env doc_db long_txt = [(short_txt, 198 / 199)]"
proof -
  have "find_similar_documents doc_env doc_db long_txt = [(short_txt, 198 / 199)]"
    by (simp add: find_similar_documents_def doc_extract strip_replicate_a doc_db_def short_row_def
        empty_db_def select_others_def doc_paths doc_exists doc_ratio
        THRESHOLD_text_similarity_def sorted_by_score_def)
  then show ?thesis by (simp add: doc_store doc_extract)
qed

text \<open>The theorem of claim C7 with \<^verbatim>\<open>short.txt\<close> as the querying file.\<close>

theorem short_document_query_witness:
  "find_similar_documents doc_env
      (empty_db\<lparr>document_content :=
         [(long_txt, \<lparr> content_hash = [], text_content = replicate 100 (CHR ''a''),
                       doc_word_count = 1 \<rparr>, 2048, 1)]\<rparr>) short_txt = []
   \<and> (\<forall>orig sc. fst (check_for_advanced_duplicates doc_env empty_state short_txt ''short.txt'' ''h5'')
          \<noteq> Some (ModalitySimilarDuplicate document_similarity orig sc))
   \<and> find_similar_documents zip_env doc_db zip_path = []"
proof -
  have h: "extract_document_content doc_env short_txt = Some (replicate 99 (CHR ''a'')) \<and>
      length (strip (replicate 99 (CHR ''a''))) < 100"
    by (simp add: doc_extract strip_replicate_a)
  have n: "extract_document_content zip_env zip_path = None"
    by (simp add: extract_document_content_def ext_zip)
  show ?thesis
    using short_document_query[of doc_env short_txt "replicate 99 (CHR ''a'')" _ empty_state
        "''short.txt''" "''h5''", THEN conjunct1, rule_format, OF h]
      short_document_query[of zip_env zip_path _ doc_db, THEN conjunct2, rule_format, OF n]
    by blast
qed

end
